theory Spec2Isabelle
  imports Complex_Main
begin

section \<open>Heat-spread simulation: data model\<close>

text \<open>
  The program is the MPI/OpenACC heat-spread simulation of \<^verbatim>\<open>src/c/gpu.c\<close> (and the
  second variant of the same \<^verbatim>\<open>main\<close>, which differs in the barrier before the loop
  and in the kind of gather). Each MPI process owns \<^verbatim>\<open>ROWS_PER_MPI_PROCESS\<close> rows of the
  global grid plus one ghost row above and one below.

  Modelling decisions.
  \<^item> A \<^verbatim>\<open>double\<close> is a \<^typ>\<open>real\<close>: rounding is not modelled. The only comparison the
    kernels make is the exact test \<^verbatim>\<open>!= MAX_TEMPERATURE\<close>, which is the disequality of HOL.
  \<^item> A two-dimensional C array is a list of rows. Every index the program uses is in
    range when the arrays have their declared shape and there are at least two columns;
    the theorems assume that shape where they need it. Indices and ranks are natural
    numbers: the \<^verbatim>\<open>int\<close>s of the program are far from overflow, and every subtraction
    the program makes (\<open>i - 1\<close>, \<open>my_rank - 1\<close>, \<open>comm_size - 1\<close>, the last two columns)
    is of numbers at least as large as what is subtracted.
  \<^item> The macros of \<^verbatim>\<open>util.h\<close> are the fields of a configuration record; the width of
    \<^verbatim>\<open>all_temperatures\<close> and of the snapshot is \<^verbatim>\<open>COLUMNS_PER_MPI_PROCESS\<close>, as the
    master's own copy loop takes it to be.
  \<^item> The OpenACC pragmas are ignored: the three stencil kernels write disjoint cells
    and read only \<^verbatim>\<open>temperatures_last\<close>, so their sequential order is the one of the text.
  \<^item> The model starts with task 1, after the master has filled \<^verbatim>\<open>all_temperatures\<close>. The
    loop runs as long as the wall clock allows, so the number of passes is a parameter.
    The reduction of the temperature change and the broadcast of the time are not
    modelled: they do not touch the arrays.
\<close>

type_synonym row = "real list"

type_synonym grid = "row list"

record config =
  ROWS_PER_MPI_PROCESS :: nat
  COLUMNS_PER_MPI_PROCESS :: nat
  MAX_TEMPERATURE :: real
  SNAPSHOT_INTERVAL :: nat

text \<open>
  The arrays every process declares. They are automatic variables without initialiser,
  so a process starts with whatever its stack holds: the start state of a process is a
  parameter of the model.
\<close>

record process =
  temperatures :: grid
  temperatures_last :: grid
  all_temperatures :: grid
  my_temperature_change :: real

definition well_formed :: "config \<Rightarrow> grid \<Rightarrow> bool" where
  "well_formed cfg g \<longleftrightarrow>
     length g = ROWS_PER_MPI_PROCESS cfg + 2 \<and>
     list_all (\<lambda>r. length r = COLUMNS_PER_MPI_PROCESS cfg) g"

text \<open>The assignment \<^verbatim>\<open>g[i][j] = v\<close>.\<close>

definition set_cell :: "grid \<Rightarrow> nat \<Rightarrow> nat \<Rightarrow> real \<Rightarrow> grid" where
  "set_cell g i j v = g[i := (g ! i)[j := v]]"

section \<open>Subtask 2: the stencil kernels\<close>

text \<open>The body of the first kernel (column 0), for row \<open>i\<close>.\<close>

definition left_column :: "config \<Rightarrow> grid \<Rightarrow> nat \<Rightarrow> grid \<Rightarrow> grid" where
  "left_column cfg prev i t =
     (if t ! i ! 0 \<noteq> MAX_TEMPERATURE cfg
      then set_cell t i 0 ((prev ! (i - 1) ! 0 + prev ! (i + 1) ! 0 + prev ! i ! 1) / 3.0)
      else t)"

text \<open>The body of the second kernel, for row \<open>i\<close> and column \<open>j\<close>.\<close>

definition middle_cell :: "config \<Rightarrow> grid \<Rightarrow> nat \<Rightarrow> nat \<Rightarrow> grid \<Rightarrow> grid" where
  "middle_cell cfg prev i j t =
     (if t ! i ! j \<noteq> MAX_TEMPERATURE cfg
      then set_cell t i j (0.25 * (prev ! (i - 1) ! j + prev ! (i + 1) ! j +
                                   prev ! i ! (j - 1) + prev ! i ! (j + 1)))
      else t)"

text \<open>The body of the third kernel (the last column), for row \<open>i\<close>.\<close>

definition right_column :: "config \<Rightarrow> grid \<Rightarrow> nat \<Rightarrow> grid \<Rightarrow> grid" where
  "right_column cfg prev i t =
     (let c = COLUMNS_PER_MPI_PROCESS cfg in
      if t ! i ! (c - 1) \<noteq> MAX_TEMPERATURE cfg
      then set_cell t i (c - 1)
             ((prev ! (i - 1) ! (c - 1) + prev ! (i + 1) ! (c - 1) + prev ! i ! (c - 2)) / 3.0)
      else t)"

text \<open>
  The three loops, each over the rows \<open>1 .. ROWS_PER_MPI_PROCESS\<close>; \<open>prev\<close> is
  \<^verbatim>\<open>temperatures_last\<close> and \<open>t\<close> is \<^verbatim>\<open>temperatures\<close>.
\<close>

definition propagate :: "config \<Rightarrow> grid \<Rightarrow> grid \<Rightarrow> grid" where
  "propagate cfg prev t =
     (let rows = [1 ..< ROWS_PER_MPI_PROCESS cfg + 1];
          t1 = fold (left_column cfg prev) rows t;
          t2 = fold (\<lambda>i. fold (middle_cell cfg prev i) [1 ..< COLUMNS_PER_MPI_PROCESS cfg - 1])
                 rows t1;
          t3 = fold (right_column cfg prev) rows t2
      in t3)"

section \<open>Process topology\<close>

text \<open>\<open>None\<close> is \<^verbatim>\<open>MPI_PROC_NULL\<close>; the first rank is 0 and the last is \<open>comm_size - 1\<close>.\<close>

definition up_neighbour_rank :: "nat \<Rightarrow> nat option" where
  "up_neighbour_rank my_rank = (if my_rank = 0 then None else Some (my_rank - 1))"

definition down_neighbour_rank :: "nat \<Rightarrow> nat \<Rightarrow> nat option" where
  "down_neighbour_rank comm_size my_rank =
     (if my_rank = comm_size - 1 then None else Some (my_rank + 1))"

section \<open>Task 1: distributing the data\<close>

text \<open>
  A message is a list of rows: the program only ever sends whole rows
  (\<open>COLUMNS_PER_MPI_PROCESS\<close> doubles each, the width of every array).
  \<open>read_rows g k n\<close> is the send buffer \<^verbatim>\<open>&g[k][0]\<close> of \<open>n\<close> rows, \<open>write_rows g k m\<close>
  stores the message \<open>m\<close> at \<^verbatim>\<open>&g[k][0]\<close>.
\<close>

definition read_rows :: "grid \<Rightarrow> nat \<Rightarrow> nat \<Rightarrow> grid" where
  "read_rows g k n = take n (drop k g)"

definition write_rows :: "grid \<Rightarrow> nat \<Rightarrow> grid \<Rightarrow> grid" where
  "write_rows g k m = fold (\<lambda>n g'. g'[k + n := m ! n]) [0 ..< length m] g"

text \<open>The chunk the master sends to rank \<open>i\<close>: \<^verbatim>\<open>&all_temperatures[i * ROWS_PER_MPI_PROCESS][0]\<close>.\<close>

definition chunk :: "config \<Rightarrow> nat \<Rightarrow> process \<Rightarrow> grid" where
  "chunk cfg i p =
     read_rows (all_temperatures p) (i * ROWS_PER_MPI_PROCESS cfg) (ROWS_PER_MPI_PROCESS cfg)"

text \<open>The master's own chunk: the double loop \<^verbatim>\<open>temperatures_last[j][k] = all_temperatures[j-1][k]\<close>.\<close>

definition copy_own_chunk :: "config \<Rightarrow> process \<Rightarrow> process" where
  "copy_own_chunk cfg p =
     p\<lparr>temperatures_last :=
         fold (\<lambda>j. fold (\<lambda>k last. set_cell last j k (all_temperatures p ! (j - 1) ! k))
                      [0 ..< COLUMNS_PER_MPI_PROCESS cfg])
           [1 ..< ROWS_PER_MPI_PROCESS cfg + 1] (temperatures_last p)\<rparr>"

text \<open>The other ranks receive their chunk at \<^verbatim>\<open>&temperatures_last[1][0]\<close>.\<close>

definition receive_chunk :: "grid \<Rightarrow> process \<Rightarrow> process" where
  "receive_chunk m p = p\<lparr>temperatures_last := write_rows (temperatures_last p) 1 m\<rparr>"

text \<open>Every rank then copies \<^verbatim>\<open>temperatures_last\<close> into \<^verbatim>\<open>temperatures\<close>, rows 1 to \<open>ROWS_PER_MPI_PROCESS\<close>.\<close>

definition copy_to_current :: "config \<Rightarrow> process \<Rightarrow> process" where
  "copy_to_current cfg p =
     p\<lparr>temperatures :=
         fold (\<lambda>i. fold (\<lambda>j t. set_cell t i j (temperatures_last p ! i ! j))
                      [0 ..< COLUMNS_PER_MPI_PROCESS cfg])
           [1 ..< ROWS_PER_MPI_PROCESS cfg + 1] (temperatures p)\<rparr>"

text \<open>
  The state of all ranks after task 1 and the copy, as a function of their start
  states \<open>ps\<close> (rank \<open>r\<close> is \<open>ps ! r\<close>; the master's \<open>all_temperatures\<close> holds the input).
\<close>

definition data_acquisition :: "config \<Rightarrow> process list \<Rightarrow> process list" where
  "data_acquisition cfg ps =
     map (\<lambda>my_rank.
            copy_to_current cfg
              (if my_rank = 0 then copy_own_chunk cfg (ps ! my_rank)
               else receive_chunk (chunk cfg my_rank (ps ! 0)) (ps ! my_rank)))
       [0 ..< length ps]"

section \<open>Subtask 1: the ghost rows after the exchange\<close>

text \<open>
  The net effect of the four calls of one exchange on all ranks: rank \<open>r\<close> holds in
  \<^verbatim>\<open>temperatures_last[ROWS_PER_MPI_PROCESS+1]\<close> the row \<^verbatim>\<open>temperatures[1]\<close> of rank \<open>r + 1\<close> and
  in \<^verbatim>\<open>temperatures_last[0]\<close> the row \<^verbatim>\<open>temperatures[ROWS_PER_MPI_PROCESS]\<close> of rank \<open>r - 1\<close>;
  a call with \<^verbatim>\<open>MPI_PROC_NULL\<close> transfers nothing.
\<close>

definition exchanged :: "config \<Rightarrow> process list \<Rightarrow> nat \<Rightarrow> process" where
  "exchanged cfg ps my_rank =
     (let p = ps ! my_rank;
          last1 = (case down_neighbour_rank (length ps) my_rank of
                     None \<Rightarrow> temperatures_last p
                   | Some d \<Rightarrow> write_rows (temperatures_last p) (ROWS_PER_MPI_PROCESS cfg + 1)
                                 (read_rows (temperatures (ps ! d)) 1 1));
          last2 = (case up_neighbour_rank my_rank of
                     None \<Rightarrow> last1
                   | Some u \<Rightarrow> write_rows last1 0
                                 (read_rows (temperatures (ps ! u)) (ROWS_PER_MPI_PROCESS cfg) 1))
      in p\<lparr>temperatures_last := last2\<rparr>)"

definition exchange_ghost_cells :: "config \<Rightarrow> process list \<Rightarrow> process list" where
  "exchange_ghost_cells cfg ps = map (exchanged cfg ps) [0 ..< length ps]"

section \<open>Subtasks 2 and 3 on a process\<close>

definition propagate_temperatures :: "config \<Rightarrow> process \<Rightarrow> process" where
  "propagate_temperatures cfg p =
     p\<lparr>temperatures := propagate cfg (temperatures_last p) (temperatures p)\<rparr>"

text \<open>
  The loop of subtask 3: the running maximum of the absolute change, and the copy of
  \<^verbatim>\<open>temperatures\<close> into \<^verbatim>\<open>temperatures_last\<close>, cell by cell. The state of the loop is the
  pair of \<^verbatim>\<open>my_temperature_change\<close> and \<^verbatim>\<open>temperatures_last\<close>.
\<close>

definition track_cell :: "grid \<Rightarrow> nat \<Rightarrow> nat \<Rightarrow> real \<times> grid \<Rightarrow> real \<times> grid" where
  "track_cell t i j s =
     (max (abs (t ! i ! j - snd s ! i ! j)) (fst s), set_cell (snd s) i j (t ! i ! j))"

definition max_temperature_change :: "config \<Rightarrow> process \<Rightarrow> process" where
  "max_temperature_change cfg p =
     (let s = fold (\<lambda>i. fold (track_cell (temperatures p) i) [0 ..< COLUMNS_PER_MPI_PROCESS cfg])
                [1 ..< ROWS_PER_MPI_PROCESS cfg + 1] (0, temperatures_last p)
      in p\<lparr>temperatures_last := snd s, my_temperature_change := fst s\<rparr>)"

section \<open>Subtask 6 and the loop\<close>

text \<open>
  \<^verbatim>\<open>MPI_Gather\<close> concatenates, in rank order, the send buffers \<^verbatim>\<open>&temperatures[1][0]\<close> of
  \<open>ROWS_PER_MPI_PROCESS\<close> rows into the master's \<^verbatim>\<open>snapshot\<close>.
\<close>

definition gather :: "config \<Rightarrow> process list \<Rightarrow> grid" where
  "gather cfg ps = concat (map (\<lambda>p. read_rows (temperatures p) 1 (ROWS_PER_MPI_PROCESS cfg)) ps)"

record run =
  processes :: "process list"
  snapshot :: grid
  iteration_count :: nat

text \<open>
  One pass through the body of the \<^verbatim>\<open>while\<close> loop, on all ranks. How often the body
  runs is decided by the wall clock, so the number of passes is a parameter.
  \<^verbatim>\<open>SNAPSHOT_INTERVAL\<close> is positive (the remainder by 0 is undefined in C).
\<close>

definition iteration :: "config \<Rightarrow> run \<Rightarrow> run" where
  "iteration cfg s =
     (let ps1 = exchange_ghost_cells cfg (processes s);
          ps2 = map (propagate_temperatures cfg) ps1;
          ps3 = map (max_temperature_change cfg) ps2
      in \<lparr>processes = ps3,
          snapshot = (if iteration_count s mod SNAPSHOT_INTERVAL cfg = 0 then gather cfg ps3
                      else snapshot s),
          iteration_count = iteration_count s + 1\<rparr>)"

definition start_run :: "config \<Rightarrow> process list \<Rightarrow> grid \<Rightarrow> run" where
  "start_run cfg ps snap =
     \<lparr>processes = data_acquisition cfg ps, snapshot = snap, iteration_count = 0\<rparr>"

definition iterations :: "config \<Rightarrow> nat \<Rightarrow> run \<Rightarrow> run" where
  "iterations cfg n s = (iteration cfg ^^ n) s"

text \<open>
  The declared shapes: \<^verbatim>\<open>temperatures\<close> and \<^verbatim>\<open>temperatures_last\<close> have
  \<open>ROWS_PER_MPI_PROCESS + 2\<close> rows of \<open>COLUMNS_PER_MPI_PROCESS\<close> cells on every rank, and the
  master's \<^verbatim>\<open>all_temperatures\<close> has \<open>comm_size * ROWS_PER_MPI_PROCESS\<close> rows of the same width.
  Nothing is said about the contents.
\<close>

definition proper_start :: "config \<Rightarrow> process list \<Rightarrow> bool" where
  "proper_start cfg ps \<longleftrightarrow>
     0 < length ps \<and>
     list_all (\<lambda>p. well_formed cfg (temperatures p) \<and> well_formed cfg (temperatures_last p)) ps \<and>
     length (all_temperatures (ps ! 0)) = length ps * ROWS_PER_MPI_PROCESS cfg \<and>
     list_all (\<lambda>r. length r = COLUMNS_PER_MPI_PROCESS cfg) (all_temperatures (ps ! 0))"

section \<open>The values the kernels store\<close>

text \<open>The right-hand sides of the three kernels, and the one that applies in column \<open>j\<close>.\<close>

definition left_value :: "grid \<Rightarrow> nat \<Rightarrow> nat \<Rightarrow> real" where
  "left_value prev i j = (prev ! (i - 1) ! 0 + prev ! (i + 1) ! 0 + prev ! i ! 1) / 3"

definition middle_value :: "grid \<Rightarrow> nat \<Rightarrow> nat \<Rightarrow> real" where
  "middle_value prev i j =
     0.25 * (prev ! (i - 1) ! j + prev ! (i + 1) ! j + prev ! i ! (j - 1) + prev ! i ! (j + 1))"

definition right_value :: "nat \<Rightarrow> grid \<Rightarrow> nat \<Rightarrow> nat \<Rightarrow> real" where
  "right_value c prev i j =
     (prev ! (i - 1) ! (c - 1) + prev ! (i + 1) ! (c - 1) + prev ! i ! (c - 2)) / 3"

definition stencil_value :: "config \<Rightarrow> grid \<Rightarrow> nat \<Rightarrow> nat \<Rightarrow> real" where
  "stencil_value cfg prev i j =
     (if j = 0 then left_value prev i j
      else if j = COLUMNS_PER_MPI_PROCESS cfg - 1
        then right_value (COLUMNS_PER_MPI_PROCESS cfg) prev i j
      else middle_value prev i j)"

section \<open>The MPI calls of a rank\<close>

text \<open>
  The point-to-point calls the program makes are \<^verbatim>\<open>MPI_Ssend\<close> and \<^verbatim>\<open>MPI_Recv\<close>, both
  blocking, and \<^verbatim>\<open>MPI_Barrier\<close>. A rank is a sequence of calls and local computations:
  \<^item> \<open>Ssend dest buf\<close> sends the rows \<open>buf\<close> reads from the local state to \<open>dest\<close>; it is
    synchronous, so it returns only when the matching receive has started;
  \<^item> \<open>Recv source store\<close> waits for a message of \<open>source\<close> (with any tag) and stores it;
  \<^item> with \<^verbatim>\<open>MPI_PROC_NULL\<close> (\<open>None\<close>) in the place of the rank, either call returns at
    once and transfers nothing;
  \<^item> \<open>Barrier\<close> returns when every rank has called it;
  \<^item> \<open>Local f\<close> is a computation on the rank's own arrays.
\<close>

datatype mpi_call =
    Ssend "nat option" "process \<Rightarrow> grid"
  | Recv "nat option" "grid \<Rightarrow> process \<Rightarrow> process"
  | Barrier
  | Local "process \<Rightarrow> process"

text \<open>
  The state of a rank is the number of calls it has completed and its arrays; the state
  of the run is the list of the ranks' states; a program gives every rank its calls.
\<close>

type_synonym node = "nat \<times> process"

type_synonym world = "node list"

type_synonym program = "nat \<Rightarrow> mpi_call list"

definition next_call :: "program \<Rightarrow> world \<Rightarrow> nat \<Rightarrow> mpi_call option" where
  "next_call prog w r =
     (if r < length w \<and> fst (w ! r) < length (prog r) then Some (prog r ! fst (w ! r))
      else None)"

definition advance :: "(process \<Rightarrow> process) \<Rightarrow> node \<Rightarrow> node" where
  "advance f n = (Suc (fst n), f (snd n))"

inductive step :: "program \<Rightarrow> world \<Rightarrow> world \<Rightarrow> bool" for prog :: program where
  local:
    "next_call prog w r = Some (Local f) \<Longrightarrow> step prog w (w[r := advance f (w ! r)])"
| send_null:
    "next_call prog w r = Some (Ssend None buf) \<Longrightarrow> step prog w (w[r := advance id (w ! r)])"
| recv_null:
    "next_call prog w r = Some (Recv None store) \<Longrightarrow> step prog w (w[r := advance id (w ! r)])"
| transfer:
    "next_call prog w s = Some (Ssend (Some d) buf) \<Longrightarrow>
     next_call prog w d = Some (Recv (Some s) store) \<Longrightarrow> s \<noteq> d \<Longrightarrow>
     step prog w (w[s := advance id (w ! s), d := advance (store (buf (snd (w ! s)))) (w ! d)])"
| barrier:
    "w \<noteq> [] \<Longrightarrow> \<forall>r < length w. next_call prog w r = Some Barrier \<Longrightarrow>
     step prog w (map (advance id) w)"

definition finished :: "program \<Rightarrow> world \<Rightarrow> bool" where
  "finished prog w \<longleftrightarrow> (\<forall>r < length w. fst (w ! r) = length (prog r))"

text \<open>Rank \<open>r\<close> can complete its next call in the state \<open>w\<close>.\<close>

definition can_advance :: "program \<Rightarrow> world \<Rightarrow> nat \<Rightarrow> bool" where
  "can_advance prog w r \<longleftrightarrow> (\<exists>w'. step prog w w' \<and> fst (w' ! r) = Suc (fst (w ! r)))"

text \<open>All ranks before their first call.\<close>

definition start :: "process list \<Rightarrow> world" where
  "start ps = map (Pair 0) ps"

subsection \<open>Subtask 1: the exchange of the ghost rows\<close>

text \<open>The buffers \<^verbatim>\<open>&temperatures[k][0]\<close> (sent) and \<^verbatim>\<open>&temperatures_last[k][0]\<close> (received), one row.\<close>

definition send_row :: "nat \<Rightarrow> process \<Rightarrow> grid" where
  "send_row k p = read_rows (temperatures p) k 1"

definition recv_row :: "nat \<Rightarrow> grid \<Rightarrow> process \<Rightarrow> process" where
  "recv_row k m p = p\<lparr>temperatures_last := write_rows (temperatures_last p) k m\<rparr>"

text \<open>The four calls of one exchange, in the order of the source.\<close>

definition ghost_exchange_calls :: "config \<Rightarrow> nat \<Rightarrow> nat \<Rightarrow> mpi_call list" where
  "ghost_exchange_calls cfg comm_size my_rank =
     [Ssend (up_neighbour_rank my_rank) (send_row 1),
      Recv (down_neighbour_rank comm_size my_rank) (recv_row (ROWS_PER_MPI_PROCESS cfg + 1)),
      Ssend (down_neighbour_rank comm_size my_rank) (send_row (ROWS_PER_MPI_PROCESS cfg)),
      Recv (up_neighbour_rank my_rank) (recv_row 0)]"

subsection \<open>From task 1 to the end of the first stencil update\<close>






section \<open>Example data\<close>

definition cfg0 :: config where
  "cfg0 = \<lparr>ROWS_PER_MPI_PROCESS = 2, COLUMNS_PER_MPI_PROCESS = 3, MAX_TEMPERATURE = 50,
           SNAPSHOT_INTERVAL = 1\<rparr>"

definition grid0 :: grid where
  "grid0 = [[1, 2, 3], [4, 5, 6], [7, 8, 50], [10, 11, 12]]"

definition cfg1 :: config where
  "cfg1 = \<lparr>ROWS_PER_MPI_PROCESS = 1, COLUMNS_PER_MPI_PROCESS = 2, MAX_TEMPERATURE = 50,
           SNAPSHOT_INTERVAL = 1\<rparr>"

definition stack1 :: "grid \<Rightarrow> process" where
  "stack1 a = \<lparr>temperatures = [[7, 7], [7, 7], [7, 7]],
              temperatures_last = [[9, 9], [9, 9], [9, 9]],
              all_temperatures = a, my_temperature_change = 3\<rparr>"

definition ranks1 :: "process list" where
  "ranks1 = [stack1 [[1, 2], [50, 4]], stack1 []]"

definition run0 :: run where
  "run0 = \<lparr>processes = [\<lparr>temperatures = grid0, temperatures_last = grid0,
                          all_temperatures = [], my_temperature_change = 0\<rparr>],
           snapshot = [], iteration_count = 0\<rparr>"

definition stack0 :: "real \<Rightarrow> process" where
  "stack0 v = \<lparr>temperatures = [[0, 0, 0], [0, 0, 0], [0, 0, 0], [0, 0, 0]],
              temperatures_last = [[v, v, v], [0, 0, 0], [0, 0, 0], [v, v, v]],
              all_temperatures = [[4, 5, 6], [7, 8, 50]], my_temperature_change = 0\<rparr>"

definition half :: "real \<Rightarrow> process" where
  "half v = \<lparr>temperatures = [[0, 0], [v, v + 1], [0, 0]],
             temperatures_last = [[0, 0], [v, v + 1], [0, 0]],
             all_temperatures = [], my_temperature_change = 0\<rparr>"

definition ranks2 :: "process list" where
  "ranks2 = [half 1, half 3]"

definition ranks3 :: "process list" where
  "ranks3 = [half 1, half 3, half 5]"

text \<open>The states of a complete exchange between two ranks.\<close>

definition exchange2 :: "nat \<Rightarrow> world" where
  "exchange2 k =
     (let a = half 1; b = half 3;
          a' = a\<lparr>temperatures_last := [[0, 0], [1, 2], [3, 4]]\<rparr>;
          b' = b\<lparr>temperatures_last := [[1, 2], [3, 4], [0, 0]]\<rparr>
      in [[(0, a), (0, b)], [(1, a), (0, b)], [(2, a'), (1, b)], [(2, a'), (2, b)],
          [(2, a'), (3, b)], [(3, a'), (4, b')], [(4, a'), (4, b')]] ! k)"

text \<open>One rank whose upper and lower ghost rows of \<^verbatim>\<open>temperatures_last\<close> start at 182, after the first pass.\<close>

definition warm :: run where
  "warm = iteration cfg0 (start_run cfg0 [stack0 182] [])"




section \<open>Proof devices\<close>

text \<open>
  Every loop of the program stores into one cell per iteration, under a test of the
  cell's old value or unconditionally. \<open>store_if\<close> is that loop body over a cell index.
\<close>

definition store_if :: "(real \<Rightarrow> bool) \<Rightarrow> (nat \<Rightarrow> nat \<Rightarrow> real) \<Rightarrow> nat \<times> nat \<Rightarrow> grid \<Rightarrow> grid" where
  "store_if P f c t =
     (if P (t ! fst c ! snd c) then set_cell t (fst c) (snd c) (f (fst c) (snd c)) else t)"

definition in_shape :: "grid \<Rightarrow> nat \<times> nat \<Rightarrow> bool" where
  "in_shape t c \<longleftrightarrow> fst c < length t \<and> snd c < length (t ! fst c)"

text \<open>
  The number of calls rank \<open>r\<close> of \<open>W\<close> has completed after \<open>n\<close> steps of one exchange:
  the transfers go down the ranks one after the other and then back up.
\<close>

definition wave :: "nat \<Rightarrow> nat \<Rightarrow> nat \<Rightarrow> nat" where
  "wave W n r =
     (if n = 0 then 0
      else if n \<le> W then (if r < n - 1 then 2 else if r = n - 1 then 1 else 0)
      else if n = W + 1 then 2
      else if n \<le> 2 * W + 1
        then (if r < 2 * W + 1 - n then 2 else if r = 2 * W + 1 - n then 3 else 4)
      else 4)"

definition in_wave :: "nat \<Rightarrow> world \<Rightarrow> bool" where
  "in_wave n w \<longleftrightarrow> (\<forall>r < length w. fst (w ! r) = wave (length w) n r)"

text \<open>
  The arrays of rank \<open>r\<close> after \<open>k\<close> of the four calls of an exchange that started in \<open>ps\<close>.
\<close>

definition after_calls :: "config \<Rightarrow> process list \<Rightarrow> nat \<Rightarrow> nat \<Rightarrow> process" where
  "after_calls cfg ps r k =
     (let p = ps ! r;
          p1 = (if 2 \<le> k
                then (case down_neighbour_rank (length ps) r of
                        None \<Rightarrow> p
                      | Some d \<Rightarrow> recv_row (ROWS_PER_MPI_PROCESS cfg + 1) (send_row 1 (ps ! d)) p)
                else p);
          p2 = (if 4 \<le> k
                then (case up_neighbour_rank r of
                        None \<Rightarrow> p1
                      | Some u \<Rightarrow> recv_row 0 (send_row (ROWS_PER_MPI_PROCESS cfg) (ps ! u)) p1)
                else p1)
      in p2)"

definition data_inv :: "config \<Rightarrow> process list \<Rightarrow> world \<Rightarrow> bool" where
  "data_inv cfg ps w \<longleftrightarrow>
     length w = length ps \<and> (\<forall>r < length w. snd (w ! r) = after_calls cfg ps r (fst (w ! r)))"






section \<open>The stencil kernels, cell by cell\<close>

lemma map_length_set_cell: "map length (set_cell t i j v) = map length t"
proof (rule nth_equalityI)
  show "length (map length (set_cell t i j v)) = length (map length t)"
    by (simp add: set_cell_def)
next
  fix k assume "k < length (map length (set_cell t i j v))"
  then have k: "k < length t" by (simp add: set_cell_def)
  show "map length (set_cell t i j v) ! k = map length t ! k"
    using k by (cases "k = i") (simp_all add: set_cell_def)
qed

lemma nth_set_cell:
  "i < length t \<Longrightarrow> j < length (t ! i) \<Longrightarrow>
   set_cell t i j v ! i' ! j' = (if i' = i \<and> j' = j then v else t ! i' ! j')"
  by (auto simp: set_cell_def nth_list_update)

lemma nth_set_cell_other:
  "(i', j') \<noteq> (i, j) \<Longrightarrow> set_cell t i j v ! i' ! j' = t ! i' ! j'"
proof (cases "i < length t")
  case True
  assume "(i', j') \<noteq> (i, j)"
  with True show ?thesis
    by (cases "i' = i") (auto simp: set_cell_def)
next
  case False
  then show ?thesis by (simp add: set_cell_def list_update_beyond)
qed

lemma map_length_store_if: "map length (store_if P f c t) = map length t"
  by (simp add: store_if_def map_length_set_cell)

lemma nth_store_if:
  "fst c < length t \<Longrightarrow> snd c < length (t ! fst c) \<Longrightarrow>
   store_if P f c t ! i' ! j' =
     (if (i', j') = c \<and> P (t ! i' ! j') then f i' j' else t ! i' ! j')"
  by (cases c) (auto simp: store_if_def nth_set_cell)

lemma in_shape_cong: "map length t' = map length t \<Longrightarrow> in_shape t' c = in_shape t c"
  unfolding in_shape_def
  by (metis length_map nth_map)

lemma fold_store_if:
  "\<forall>c \<in> set cs. in_shape t c \<Longrightarrow> distinct cs \<Longrightarrow>
   fold (store_if P f) cs t ! i' ! j' =
     (if (i', j') \<in> set cs \<and> P (t ! i' ! j') then f i' j' else t ! i' ! j')"
proof (induction cs arbitrary: t)
  case Nil
  then show ?case by simp
next
  case (Cons c cs)
  let ?t = "store_if P f c t"
  have shp: "\<forall>d \<in> set cs. in_shape ?t d"
    using Cons.prems(1) by (simp add: in_shape_cong [OF map_length_store_if])
  have c: "fst c < length t" "snd c < length (t ! fst c)"
    using Cons.prems(1) by (simp_all add: in_shape_def)
  have "fold (store_if P f) (c # cs) t ! i' ! j' = fold (store_if P f) cs ?t ! i' ! j'"
    by simp
  also have "\<dots> = (if (i', j') \<in> set cs \<and> P (?t ! i' ! j') then f i' j' else ?t ! i' ! j')"
    using Cons.IH [OF shp] Cons.prems(2) by simp
  finally show ?case
    using Cons.prems(2) by (auto simp: nth_store_if [OF c])
qed

lemma map_length_fold_store_if:
  "map length (fold (store_if P f) cs t) = map length t"
  by (induction cs arbitrary: t) (simp_all add: map_length_store_if)

lemma fold_concat_map:
  "fold g (concat (map h xs)) t = fold (\<lambda>x. fold g (h x)) xs t"
  by (induction xs arbitrary: t) simp_all

lemma distinct_row_cells:
  "distinct rows \<Longrightarrow> distinct cols \<Longrightarrow> distinct (concat (map (\<lambda>i. map (Pair i) cols) rows))"
  by (induction rows) (auto simp: distinct_map inj_on_def)

lemma well_formed_in_shape:
  "well_formed cfg t \<Longrightarrow>
   \<forall>c \<in> set cs. fst c \<le> ROWS_PER_MPI_PROCESS cfg + 1 \<and> snd c < COLUMNS_PER_MPI_PROCESS cfg \<Longrightarrow>
   \<forall>c \<in> set cs. in_shape t c"
  by (auto simp: well_formed_def in_shape_def list_all_length)

lemma well_formed_cong:
  "map length t' = map length t \<Longrightarrow> well_formed cfg t' = well_formed cfg t"
  unfolding well_formed_def list_all_length
  by (metis length_map nth_map)

lemma fold_left_column:
  "fold (left_column cfg prev) rows t =
   fold (store_if (\<lambda>v. v \<noteq> MAX_TEMPERATURE cfg) (left_value prev)) (map (\<lambda>i. (i, 0)) rows) t"
proof -
  have "left_column cfg prev =
        store_if (\<lambda>v. v \<noteq> MAX_TEMPERATURE cfg) (left_value prev) \<circ> (\<lambda>i. (i, 0))"
    by (rule ext)+ (simp add: left_column_def store_if_def left_value_def)
  then show ?thesis by (simp add: fold_map)
qed

lemma fold_right_column:
  "fold (right_column cfg prev) rows t =
   fold (store_if (\<lambda>v. v \<noteq> MAX_TEMPERATURE cfg) (right_value (COLUMNS_PER_MPI_PROCESS cfg) prev))
     (map (\<lambda>i. (i, COLUMNS_PER_MPI_PROCESS cfg - 1)) rows) t"
proof -
  have "right_column cfg prev =
        store_if (\<lambda>v. v \<noteq> MAX_TEMPERATURE cfg) (right_value (COLUMNS_PER_MPI_PROCESS cfg) prev)
          \<circ> (\<lambda>i. (i, COLUMNS_PER_MPI_PROCESS cfg - 1))"
    by (rule ext)+ (simp add: right_column_def store_if_def right_value_def Let_def)
  then show ?thesis by (simp add: fold_map)
qed

lemma fold_middle_cell:
  "fold (\<lambda>i. fold (middle_cell cfg prev i) cols) rows t =
   fold (store_if (\<lambda>v. v \<noteq> MAX_TEMPERATURE cfg) (middle_value prev))
     (concat (map (\<lambda>i. map (Pair i) cols) rows)) t"
proof -
  have h: "middle_cell cfg prev i =
           store_if (\<lambda>v. v \<noteq> MAX_TEMPERATURE cfg) (middle_value prev) \<circ> Pair i" for i
    by (rule ext)+ (simp add: middle_cell_def store_if_def middle_value_def)
  show ?thesis
    by (simp add: fold_concat_map fold_map h)
qed

lemma propagate_cell:
  assumes wf: "well_formed cfg t"
    and c2: "2 \<le> COLUMNS_PER_MPI_PROCESS cfg"
  shows "propagate cfg prev t ! i ! j =
     (if 1 \<le> i \<and> i \<le> ROWS_PER_MPI_PROCESS cfg \<and> j < COLUMNS_PER_MPI_PROCESS cfg \<and>
         t ! i ! j \<noteq> MAX_TEMPERATURE cfg
      then (if j = 0 then left_value prev i j
            else if j = COLUMNS_PER_MPI_PROCESS cfg - 1
              then right_value (COLUMNS_PER_MPI_PROCESS cfg) prev i j
            else middle_value prev i j)
      else t ! i ! j)"
proof -
  let ?R = "ROWS_PER_MPI_PROCESS cfg" and ?C = "COLUMNS_PER_MPI_PROCESS cfg"
  let ?P = "\<lambda>v. v \<noteq> MAX_TEMPERATURE cfg"
  let ?rows = "[1 ..< ?R + 1]"
  let ?A = "map (\<lambda>i. (i, 0)) ?rows"
  let ?B = "concat (map (\<lambda>i. map (Pair i) [1 ..< ?C - 1]) ?rows)"
  let ?D = "map (\<lambda>i. (i, ?C - 1)) ?rows"
  let ?t1 = "fold (store_if ?P (left_value prev)) ?A t"
  let ?t2 = "fold (store_if ?P (middle_value prev)) ?B ?t1"
  let ?t3 = "fold (store_if ?P (right_value ?C prev)) ?D ?t2"
  have p: "propagate cfg prev t = ?t3"
    by (simp add: propagate_def Let_def fold_left_column fold_middle_cell fold_right_column)
  have wf1: "well_formed cfg ?t1"
    using wf by (simp add: well_formed_cong [OF map_length_fold_store_if])
  have wf2: "well_formed cfg ?t2"
    using wf1 by (simp add: well_formed_cong [OF map_length_fold_store_if])
  have bA: "\<forall>c \<in> set ?A. fst c \<le> ?R + 1 \<and> snd c < ?C"
    using c2 by auto
  have bB: "\<forall>c \<in> set ?B. fst c \<le> ?R + 1 \<and> snd c < ?C"
    by auto
  have bD: "\<forall>c \<in> set ?D. fst c \<le> ?R + 1 \<and> snd c < ?C"
    using c2 by auto
  have sA: "\<forall>c \<in> set ?A. in_shape t c"
    by (rule well_formed_in_shape [OF wf bA])
  have sB: "\<forall>c \<in> set ?B. in_shape ?t1 c"
    by (rule well_formed_in_shape [OF wf1 bB])
  have sD: "\<forall>c \<in> set ?D. in_shape ?t2 c"
    by (rule well_formed_in_shape [OF wf2 bD])
  have dA: "distinct ?A" and dD: "distinct ?D"
    by (simp_all add: distinct_map inj_on_def)
  have dB: "distinct ?B" by (rule distinct_row_cells) simp_all
  have mA: "(i, j) \<in> set ?A \<longleftrightarrow> 1 \<le> i \<and> i \<le> ?R \<and> j = 0"
    by auto
  have mB: "(i, j) \<in> set ?B \<longleftrightarrow> 1 \<le> i \<and> i \<le> ?R \<and> 1 \<le> j \<and> j < ?C - 1"
    by auto
  have mD: "(i, j) \<in> set ?D \<longleftrightarrow> 1 \<le> i \<and> i \<le> ?R \<and> j = ?C - 1"
    by auto
  have e1: "?t1 ! i ! j =
      (if (i, j) \<in> set ?A \<and> t ! i ! j \<noteq> MAX_TEMPERATURE cfg then left_value prev i j
       else t ! i ! j)"
    by (rule fold_store_if [OF sA dA])
  have e2: "?t2 ! i ! j =
      (if (i, j) \<in> set ?B \<and> ?t1 ! i ! j \<noteq> MAX_TEMPERATURE cfg then middle_value prev i j
       else ?t1 ! i ! j)"
    by (rule fold_store_if [OF sB dB])
  have e3: "?t3 ! i ! j =
      (if (i, j) \<in> set ?D \<and> ?t2 ! i ! j \<noteq> MAX_TEMPERATURE cfg then right_value ?C prev i j
       else ?t2 ! i ! j)"
    by (rule fold_store_if [OF sD dD])
  show ?thesis
    unfolding p e3 e2 e1 mA mB mD using c2 by auto
qed

lemma map_length_propagate: "map length (propagate cfg prev t) = map length t"
  by (simp add: propagate_def Let_def fold_left_column fold_middle_cell fold_right_column
      map_length_fold_store_if)

lemma well_formed_grid0: "well_formed cfg0 grid0"
  by (simp add: well_formed_def cfg0_def grid0_def)

section \<open>The other loops, the messages and the iteration\<close>

lemma fold_store_if_keeps:
  "\<not> P (t ! i ! j) \<Longrightarrow> fold (store_if P f) cs t ! i ! j = t ! i ! j"
proof (induction cs arbitrary: t)
  case Nil
  then show ?case by simp
next
  case (Cons c cs)
  have same: "store_if P f c t ! i ! j = t ! i ! j"
  proof (cases "c = (i, j)")
    case True
    with Cons.prems show ?thesis by (simp add: store_if_def)
  next
    case False
    then have "(i, j) \<noteq> (fst c, snd c)" by auto
    then show ?thesis by (simp add: store_if_def nth_set_cell_other)
  qed
  with Cons.prems have "\<not> P (store_if P f c t ! i ! j)" by simp
  from Cons.IH [OF this] same show ?case by simp
qed

lemma propagate_keeps_max:
  "t ! i ! j = MAX_TEMPERATURE cfg \<Longrightarrow> propagate cfg prev t ! i ! j = MAX_TEMPERATURE cfg"
  by (simp add: propagate_def Let_def fold_left_column fold_middle_cell fold_right_column
      fold_store_if_keeps)

lemma fold_store_always:
  "fold (\<lambda>i. fold (\<lambda>j t. set_cell t i j (f i j)) cols) rows t =
   fold (store_if (\<lambda>_. True) f) (concat (map (\<lambda>i. map (Pair i) cols) rows)) t"
proof -
  have h: "(\<lambda>j t. set_cell t i j (f i j)) = store_if (\<lambda>_. True) f \<circ> Pair i" for i
    by (rule ext)+ (simp add: store_if_def)
  show ?thesis
    by (simp add: fold_concat_map fold_map h)
qed

lemma copy_loop_cell:
  assumes wf: "well_formed cfg t"
  shows "fold (\<lambda>i. fold (\<lambda>j t. set_cell t i j (f i j)) [0 ..< COLUMNS_PER_MPI_PROCESS cfg])
           [Suc 0 ..< Suc (ROWS_PER_MPI_PROCESS cfg)] t ! i ! j =
         (if 1 \<le> i \<and> i \<le> ROWS_PER_MPI_PROCESS cfg \<and> j < COLUMNS_PER_MPI_PROCESS cfg
          then f i j else t ! i ! j)"
proof -
  let ?cs = "concat (map (\<lambda>i. map (Pair i) [0 ..< COLUMNS_PER_MPI_PROCESS cfg])
                      [Suc 0 ..< Suc (ROWS_PER_MPI_PROCESS cfg)])"
  have b: "\<forall>c \<in> set ?cs. fst c \<le> ROWS_PER_MPI_PROCESS cfg + 1 \<and> snd c < COLUMNS_PER_MPI_PROCESS cfg"
    by auto
  have d: "distinct ?cs" by (rule distinct_row_cells) simp_all
  have m: "(i, j) \<in> set ?cs \<longleftrightarrow>
           1 \<le> i \<and> i \<le> ROWS_PER_MPI_PROCESS cfg \<and> j < COLUMNS_PER_MPI_PROCESS cfg"
    by auto
  show ?thesis
    unfolding fold_store_always fold_store_if [OF well_formed_in_shape [OF wf b] d] m
    by simp
qed

lemma map_length_copy_loop:
  "map length (fold (\<lambda>i. fold (\<lambda>j t. set_cell t i j (f i j)) cols) rows t) = map length t"
  by (simp add: fold_store_always map_length_fold_store_if)

lemma nth_write_rows_aux:
  "k + l \<le> length g \<Longrightarrow>
   fold (\<lambda>n g'. g'[k + n := m ! n]) [0 ..< l] g ! i =
     (if k \<le> i \<and> i < k + l then m ! (i - k) else g ! i)"
proof (induction l)
  case 0
  then show ?case by auto
next
  case (Suc l)
  have len: "length (fold (\<lambda>n g'. g'[k + n := m ! n]) [0 ..< l] g) = length g"
    by (induction l) simp_all
  from Suc show ?case
    by (auto simp: nth_list_update len)
qed

lemma length_write_rows: "length (write_rows g k m) = length g"
proof -
  have "length (fold (\<lambda>n g'. g'[k + n := m ! n]) [0 ..< l] g) = length g" for l
    by (induction l) simp_all
  then show ?thesis by (simp add: write_rows_def)
qed

lemma nth_write_rows:
  "k + length m \<le> length g \<Longrightarrow>
   write_rows g k m ! i = (if k \<le> i \<and> i < k + length m then m ! (i - k) else g ! i)"
  by (simp add: write_rows_def nth_write_rows_aux)

lemma write_rows_single: "write_rows g k [r] = g[k := r]"
  by (simp add: write_rows_def)

lemma read_rows_single: "k < length g \<Longrightarrow> read_rows g k (Suc 0) = [g ! k]"
  by (simp add: read_rows_def take_Suc_conv_app_nth [where i = 0] Cons_nth_drop_Suc [symmetric])

lemma nth_write_rows_outside:
  "i < k \<or> k + length m \<le> i \<Longrightarrow> write_rows g k m ! i = g ! i"
proof -
  have "i < k \<or> k + l \<le> i \<Longrightarrow> fold (\<lambda>n g'. g'[k + n := m ! n]) [0 ..< l] g ! i = g ! i" for l
    by (induction l) auto
  then show "i < k \<or> k + length m \<le> i \<Longrightarrow> write_rows g k m ! i = g ! i"
    by (simp add: write_rows_def)
qed

lemma length_read_rows: "length (read_rows g k n) = min n (length g - k)"
  by (simp add: read_rows_def)

lemma nth_read_rows: "i < n \<Longrightarrow> k + i < length g \<Longrightarrow> read_rows g k n ! i = g ! (k + i)"
  by (simp add: read_rows_def)

lemma set_cell_other_row: "i' \<noteq> i \<Longrightarrow> set_cell t i j v ! i' = t ! i'"
  by (simp add: set_cell_def)

lemma fold_store_if_other_row:
  "\<forall>c \<in> set cs. fst c \<noteq> i' \<Longrightarrow> fold (store_if P f) cs t ! i' = t ! i'"
  by (induction cs arbitrary: t) (simp_all add: store_if_def set_cell_other_row)

lemma copy_loop_other_row:
  "i' \<notin> set rows \<Longrightarrow>
   fold (\<lambda>i. fold (\<lambda>j t. set_cell t i j (f i j)) cols) rows t ! i' = t ! i'"
  unfolding fold_store_always
  by (rule fold_store_if_other_row) auto

lemma snd_fold_track_cell:
  "snd (fold (\<lambda>i. fold (track_cell t i) cols) rows s) =
   fold (\<lambda>i. fold (\<lambda>j last. set_cell last i j (t ! i ! j)) cols) rows (snd s)"
proof -
  have inner: "snd (fold (track_cell t i) cs s) =
               fold (\<lambda>j last. set_cell last i j (t ! i ! j)) cs (snd s)" for i cs s
    by (induction cs arbitrary: s) (simp_all add: track_cell_def)
  show ?thesis
    by (induction rows arbitrary: s) (simp_all add: inner)
qed

lemma temperatures_last_max_temperature_change:
  "temperatures_last (max_temperature_change cfg p) =
   fold (\<lambda>i. fold (\<lambda>j last. set_cell last i j (temperatures p ! i ! j))
                [0 ..< COLUMNS_PER_MPI_PROCESS cfg])
     [1 ..< ROWS_PER_MPI_PROCESS cfg + 1] (temperatures_last p)"
  by (simp add: max_temperature_change_def Let_def snd_fold_track_cell)

lemma temperatures_max_temperature_change:
  "temperatures (max_temperature_change cfg p) = temperatures p"
  by (simp add: max_temperature_change_def Let_def)

lemma temperatures_exchanged: "temperatures (exchanged cfg ps r) = temperatures (ps ! r)"
  by (simp add: exchanged_def Let_def)

lemma length_exchange_ghost_cells: "length (exchange_ghost_cells cfg ps) = length ps"
  by (simp add: exchange_ghost_cells_def)

lemma nth_exchange_ghost_cells:
  "r < length ps \<Longrightarrow> exchange_ghost_cells cfg ps ! r = exchanged cfg ps r"
  by (simp add: exchange_ghost_cells_def)

lemma length_iteration: "length (processes (iteration cfg s)) = length (processes s)"
  by (simp add: iteration_def Let_def length_exchange_ghost_cells)

lemma length_iterations: "length (processes (iterations cfg n s)) = length (processes s)"
  by (induction n) (simp_all add: iterations_def length_iteration)

lemma temperatures_iteration:
  "r < length (processes s) \<Longrightarrow>
   temperatures (processes (iteration cfg s) ! r) =
     propagate cfg (temperatures_last (exchanged cfg (processes s) r))
       (temperatures (processes s ! r))"
  by (simp add: iteration_def Let_def length_exchange_ghost_cells nth_exchange_ghost_cells
      temperatures_max_temperature_change propagate_temperatures_def temperatures_exchanged)

lemma iteration_keeps_max:
  "r < length (processes s) \<Longrightarrow>
   temperatures (processes s ! r) ! i ! j = MAX_TEMPERATURE cfg \<Longrightarrow>
   temperatures (processes (iteration cfg s) ! r) ! i ! j = MAX_TEMPERATURE cfg"
  by (simp add: temperatures_iteration propagate_keeps_max)

lemma iterations_keeps_max:
  "r < length (processes s) \<Longrightarrow>
   temperatures (processes s ! r) ! i ! j = MAX_TEMPERATURE cfg \<Longrightarrow>
   temperatures (processes (iterations cfg n s) ! r) ! i ! j = MAX_TEMPERATURE cfg"
proof (induction n)
  case 0
  then show ?case by (simp add: iterations_def)
next
  case (Suc n)
  have "iterations cfg (Suc n) s = iteration cfg (iterations cfg n s)"
    by (simp add: iterations_def)
  with Suc show ?case
    by (simp add: iteration_keeps_max length_iterations)
qed

lemma length_data_acquisition: "length (data_acquisition cfg ps) = length ps"
  by (simp add: data_acquisition_def)

lemma nth_data_acquisition:
  "r < length ps \<Longrightarrow>
   data_acquisition cfg ps ! r =
     copy_to_current cfg
       (if r = 0 then copy_own_chunk cfg (ps ! r)
        else receive_chunk (chunk cfg r (ps ! 0)) (ps ! r))"
  by (cases "r = 0") (simp_all add: data_acquisition_def)

lemma proper_startD:
  assumes "proper_start cfg ps" and "r < length ps"
  shows "well_formed cfg (temperatures (ps ! r))"
    and "well_formed cfg (temperatures_last (ps ! r))"
    and "length (all_temperatures (ps ! 0)) = length ps * ROWS_PER_MPI_PROCESS cfg"
    and "g < length (all_temperatures (ps ! 0)) \<Longrightarrow>
         length (all_temperatures (ps ! 0) ! g) = COLUMNS_PER_MPI_PROCESS cfg"
  using assms by (simp_all add: proper_start_def list_all_length)

lemma chunk_rows:
  assumes ps: "proper_start cfg ps" and r: "r < length ps"
  shows "length (chunk cfg r (ps ! 0)) = ROWS_PER_MPI_PROCESS cfg"
    and "k < ROWS_PER_MPI_PROCESS cfg \<Longrightarrow>
         chunk cfg r (ps ! 0) ! k = all_temperatures (ps ! 0) ! (r * ROWS_PER_MPI_PROCESS cfg + k)"
    and "k < ROWS_PER_MPI_PROCESS cfg \<Longrightarrow>
         r * ROWS_PER_MPI_PROCESS cfg + k < length (all_temperatures (ps ! 0))"
proof -
  let ?R = "ROWS_PER_MPI_PROCESS cfg"
  have "(r + 1) * ?R \<le> length ps * ?R"
    using r by (intro mult_le_mono1) simp
  then have le: "r * ?R + ?R \<le> length (all_temperatures (ps ! 0))"
    by (simp add: proper_startD(3) [OF ps r])
  then show "length (chunk cfg r (ps ! 0)) = ?R"
    by (simp add: chunk_def read_rows_def)
  show "chunk cfg r (ps ! 0) ! k = all_temperatures (ps ! 0) ! (r * ?R + k)" if "k < ?R"
    using le that by (simp add: chunk_def read_rows_def)
  show "r * ?R + k < length (all_temperatures (ps ! 0))" if "k < ?R"
    using le that by simp
qed

lemma loaded_last_cell:
  assumes ps: "proper_start cfg ps" and r: "r < length ps"
    and j: "j < COLUMNS_PER_MPI_PROCESS cfg"
  shows "temperatures_last (if r = 0 then copy_own_chunk cfg (ps ! r)
                            else receive_chunk (chunk cfg r (ps ! 0)) (ps ! r)) ! i ! j =
         (if 1 \<le> i \<and> i \<le> ROWS_PER_MPI_PROCESS cfg
          then all_temperatures (ps ! 0) ! (r * ROWS_PER_MPI_PROCESS cfg + (i - 1)) ! j
          else temperatures_last (ps ! r) ! i ! j)"
proof (cases "r = 0")
  case True
  have wf0: "well_formed cfg (temperatures_last (ps ! 0))"
    using proper_startD(2) [OF ps r] True by simp
  show ?thesis
    using j True by (simp add: copy_own_chunk_def copy_loop_cell [OF wf0] del: upt_Suc)
next
  case False
  have len: "length (temperatures_last (ps ! r)) = ROWS_PER_MPI_PROCESS cfg + 2"
    using proper_startD(2) [OF ps r] by (simp add: well_formed_def)
  have "1 + length (chunk cfg r (ps ! 0)) \<le> length (temperatures_last (ps ! r))"
    by (simp add: chunk_rows(1) [OF ps r] len)
  from nth_write_rows [OF this] False show ?thesis
    by (auto simp: receive_chunk_def chunk_rows(1) [OF ps r] chunk_rows(2) [OF ps r])
qed

lemma loaded_last_ghost:
  assumes "i = 0 \<or> i = ROWS_PER_MPI_PROCESS cfg + 1"
  shows "temperatures_last (if r = 0 then copy_own_chunk cfg (ps ! r)
                            else receive_chunk (chunk cfg r (ps ! 0)) (ps ! r)) ! i =
         temperatures_last (ps ! r) ! i"
proof (cases "r = 0")
  case True
  with assms show ?thesis
    by (auto simp: copy_own_chunk_def copy_loop_other_row simp del: upt_Suc)
next
  case False
  have "length (chunk cfg r (ps ! 0)) \<le> ROWS_PER_MPI_PROCESS cfg"
    by (simp add: chunk_def read_rows_def)
  with assms have "i < 1 \<or> 1 + length (chunk cfg r (ps ! 0)) \<le> i"
    by auto
  from nth_write_rows_outside [OF this] False show ?thesis
    by (simp add: receive_chunk_def)
qed

lemma well_formed_write_rows:
  assumes "well_formed cfg g" and "list_all (\<lambda>r. length r = COLUMNS_PER_MPI_PROCESS cfg) m"
    and "k + length m \<le> length g"
  shows "well_formed cfg (write_rows g k m)"
  using assms
  by (auto simp: well_formed_def list_all_length length_write_rows nth_write_rows)

lemma well_formed_loaded_last:
  assumes ps: "proper_start cfg ps" and r: "r < length ps"
  shows "well_formed cfg (temperatures_last (if r = 0 then copy_own_chunk cfg (ps ! r)
                            else receive_chunk (chunk cfg r (ps ! 0)) (ps ! r)))"
proof (cases "r = 0")
  case True
  then show ?thesis
    using proper_startD(2) [OF ps r]
    by (simp add: copy_own_chunk_def well_formed_cong [OF map_length_copy_loop] del: upt_Suc)
next
  case False
  have wf: "well_formed cfg (temperatures_last (ps ! r))"
    by (rule proper_startD(2) [OF ps r])
  have m: "list_all (\<lambda>r. length r = COLUMNS_PER_MPI_PROCESS cfg) (chunk cfg r (ps ! 0))"
    using chunk_rows [OF ps r] proper_startD(4) [OF ps r]
    by (simp add: list_all_length)
  have "1 + length (chunk cfg r (ps ! 0)) \<le> length (temperatures_last (ps ! r))"
    using wf by (simp add: chunk_rows(1) [OF ps r] well_formed_def)
  from well_formed_write_rows [OF wf m this] False show ?thesis
    by (simp add: receive_chunk_def)
qed

lemma temperatures_loaded:
  "temperatures (if r = 0 then copy_own_chunk cfg (ps ! r)
                 else receive_chunk (chunk cfg r (ps ! 0)) (ps ! r)) = temperatures (ps ! r)"
  by (simp add: copy_own_chunk_def receive_chunk_def)

lemma temperatures_last_copy_to_current:
  "temperatures_last (copy_to_current cfg p) = temperatures_last p"
  by (simp add: copy_to_current_def)

lemma copy_to_current_cell:
  "well_formed cfg (temperatures q) \<Longrightarrow>
   temperatures (copy_to_current cfg q) ! i ! j =
     (if 1 \<le> i \<and> i \<le> ROWS_PER_MPI_PROCESS cfg \<and> j < COLUMNS_PER_MPI_PROCESS cfg
      then temperatures_last q ! i ! j else temperatures q ! i ! j)"
  by (simp add: copy_to_current_def copy_loop_cell del: upt_Suc)

text \<open>The two arrays of a rank after data acquisition.\<close>

lemma acquired_cell:
  assumes ps: "proper_start cfg ps" and r: "r < length ps"
    and j: "j < COLUMNS_PER_MPI_PROCESS cfg"
  shows "temperatures_last (data_acquisition cfg ps ! r) ! i ! j =
         (if 1 \<le> i \<and> i \<le> ROWS_PER_MPI_PROCESS cfg
          then all_temperatures (ps ! 0) ! (r * ROWS_PER_MPI_PROCESS cfg + (i - 1)) ! j
          else temperatures_last (ps ! r) ! i ! j)"
    and "temperatures (data_acquisition cfg ps ! r) ! i ! j =
         (if 1 \<le> i \<and> i \<le> ROWS_PER_MPI_PROCESS cfg
          then all_temperatures (ps ! 0) ! (r * ROWS_PER_MPI_PROCESS cfg + (i - 1)) ! j
          else temperatures (ps ! r) ! i ! j)"
proof -
  let ?q = "if r = 0 then copy_own_chunk cfg (ps ! r)
            else receive_chunk (chunk cfg r (ps ! 0)) (ps ! r)"
  have acq: "data_acquisition cfg ps ! r = copy_to_current cfg ?q"
    by (rule nth_data_acquisition [OF r])
  show "temperatures_last (data_acquisition cfg ps ! r) ! i ! j =
         (if 1 \<le> i \<and> i \<le> ROWS_PER_MPI_PROCESS cfg
          then all_temperatures (ps ! 0) ! (r * ROWS_PER_MPI_PROCESS cfg + (i - 1)) ! j
          else temperatures_last (ps ! r) ! i ! j)"
    unfolding acq temperatures_last_copy_to_current
    by (rule loaded_last_cell [OF ps r j])
  have wf: "well_formed cfg (temperatures ?q)"
    unfolding temperatures_loaded by (rule proper_startD(1) [OF ps r])
  have "temperatures (copy_to_current cfg ?q) ! i ! j =
        (if 1 \<le> i \<and> i \<le> ROWS_PER_MPI_PROCESS cfg \<and> j < COLUMNS_PER_MPI_PROCESS cfg
         then temperatures_last ?q ! i ! j else temperatures ?q ! i ! j)"
    by (rule copy_to_current_cell [OF wf])
  then show "temperatures (data_acquisition cfg ps ! r) ! i ! j =
         (if 1 \<le> i \<and> i \<le> ROWS_PER_MPI_PROCESS cfg
          then all_temperatures (ps ! 0) ! (r * ROWS_PER_MPI_PROCESS cfg + (i - 1)) ! j
          else temperatures (ps ! r) ! i ! j)"
    unfolding acq using j loaded_last_cell [OF ps r j, of i]
    by (simp add: temperatures_loaded)
qed

lemma acquired_ghost:
  assumes "i = 0 \<or> i = ROWS_PER_MPI_PROCESS cfg + 1" and r: "r < length ps"
  shows "temperatures_last (data_acquisition cfg ps ! r) ! i = temperatures_last (ps ! r) ! i"
    and "temperatures (data_acquisition cfg ps ! r) ! i = temperatures (ps ! r) ! i"
proof -
  show "temperatures_last (data_acquisition cfg ps ! r) ! i = temperatures_last (ps ! r) ! i"
    unfolding nth_data_acquisition [OF r] temperatures_last_copy_to_current
    by (rule loaded_last_ghost [OF assms(1)])
  have "i \<notin> set [1 ..< ROWS_PER_MPI_PROCESS cfg + 1]"
    using assms(1) by auto
  then show "temperatures (data_acquisition cfg ps ! r) ! i = temperatures (ps ! r) ! i"
    unfolding nth_data_acquisition [OF r] copy_to_current_def
    by (simp add: copy_loop_other_row temperatures_loaded del: upt_Suc)
qed

lemma well_formed_acquired:
  assumes ps: "proper_start cfg ps" and r: "r < length ps"
  shows "well_formed cfg (temperatures_last (data_acquisition cfg ps ! r))"
    and "well_formed cfg (temperatures (data_acquisition cfg ps ! r))"
proof -
  show "well_formed cfg (temperatures_last (data_acquisition cfg ps ! r))"
    unfolding nth_data_acquisition [OF r] temperatures_last_copy_to_current
    by (rule well_formed_loaded_last [OF ps r])
  show "well_formed cfg (temperatures (data_acquisition cfg ps ! r))"
    unfolding nth_data_acquisition [OF r] copy_to_current_def
    using proper_startD(1) [OF ps r]
    by (simp add: well_formed_cong [OF map_length_copy_loop] temperatures_loaded del: upt_Suc)
qed

lemma proper_start_ranks1: "proper_start cfg1 ranks1"
  by (simp add: proper_start_def cfg1_def ranks1_def stack1_def well_formed_def)

lemma acquired_global_cell:
  assumes ps: "proper_start cfg ps"
    and g: "g < length (all_temperatures (ps ! 0))"
    and j: "j < COLUMNS_PER_MPI_PROCESS cfg"
  shows "g div ROWS_PER_MPI_PROCESS cfg < length ps"
    and "temperatures (data_acquisition cfg ps ! (g div ROWS_PER_MPI_PROCESS cfg))
           ! (g mod ROWS_PER_MPI_PROCESS cfg + 1) ! j = all_temperatures (ps ! 0) ! g ! j"
proof -
  let ?R = "ROWS_PER_MPI_PROCESS cfg"
  have len: "length (all_temperatures (ps ! 0)) = length ps * ?R"
    using ps by (simp add: proper_start_def)
  with g have R: "0 < ?R" by (cases "?R = 0") simp_all
  from g len show r: "g div ?R < length ps"
    by (simp add: less_mult_imp_div_less)
  have m: "g mod ?R < ?R" using R by simp
  have "temperatures (data_acquisition cfg ps ! (g div ?R)) ! (g mod ?R + 1) ! j =
        all_temperatures (ps ! 0) ! (g div ?R * ?R + (g mod ?R + 1 - 1)) ! j"
    using acquired_cell(2) [OF ps r j, of "g mod ?R + 1"] m by simp
  then show "temperatures (data_acquisition cfg ps ! (g div ?R)) ! (g mod ?R + 1) ! j =
        all_temperatures (ps ! 0) ! g ! j"
    by simp
qed

lemma acquired_row:
  assumes ps: "proper_start cfg ps" and r: "r < length ps"
    and k: "k < ROWS_PER_MPI_PROCESS cfg"
  shows "temperatures_last (data_acquisition cfg ps ! r) ! Suc k =
           all_temperatures (ps ! 0) ! (r * ROWS_PER_MPI_PROCESS cfg + k)"
    and "temperatures (data_acquisition cfg ps ! r) ! Suc k =
           all_temperatures (ps ! 0) ! (r * ROWS_PER_MPI_PROCESS cfg + k)"
proof -
  let ?C = "COLUMNS_PER_MPI_PROCESS cfg"
  let ?a = "all_temperatures (ps ! 0) ! (r * ROWS_PER_MPI_PROCESS cfg + k)"
  have la: "length ?a = ?C"
    using chunk_rows(3) [OF ps r k] by (rule proper_startD(4) [OF ps r])
  have l1: "length (temperatures_last (data_acquisition cfg ps ! r) ! Suc k) = ?C"
    using well_formed_acquired(1) [OF ps r] k by (simp add: well_formed_def list_all_length)
  have l2: "length (temperatures (data_acquisition cfg ps ! r) ! Suc k) = ?C"
    using well_formed_acquired(2) [OF ps r] k by (simp add: well_formed_def list_all_length)
  show "temperatures_last (data_acquisition cfg ps ! r) ! Suc k = ?a"
    using k by (intro nth_equalityI) (simp_all add: la l1 acquired_cell(1) [OF ps r])
  show "temperatures (data_acquisition cfg ps ! r) ! Suc k = ?a"
    using k by (intro nth_equalityI) (simp_all add: la l2 acquired_cell(2) [OF ps r])
qed

lemmas run_defs =
  up_neighbour_rank_def down_neighbour_rank_def iteration_def iterations_def start_run_def
  data_acquisition_def exchange_ghost_cells_def exchanged_def chunk_def read_rows_def
  write_rows_def receive_chunk_def gather_def
  copy_to_current_def copy_own_chunk_def propagate_temperatures_def max_temperature_change_def
  propagate_def left_column_def middle_cell_def right_column_def track_cell_def
  set_cell_def well_formed_def proper_start_def Let_def upt_conv_Cons

lemma exchanged_ghost_rows:
  shows "up_neighbour_rank r = None \<Longrightarrow>
         temperatures_last (exchanged cfg ps r) ! 0 = temperatures_last (ps ! r) ! 0"
    and "down_neighbour_rank (length ps) r = None \<Longrightarrow>
         temperatures_last (exchanged cfg ps r) ! Suc (ROWS_PER_MPI_PROCESS cfg) =
           temperatures_last (ps ! r) ! Suc (ROWS_PER_MPI_PROCESS cfg)"
proof -
  show "temperatures_last (exchanged cfg ps r) ! 0 = temperatures_last (ps ! r) ! 0"
    if "up_neighbour_rank r = None"
    using that
    by (simp add: exchanged_def Let_def nth_write_rows_outside split: option.split)
  show "temperatures_last (exchanged cfg ps r) ! Suc (ROWS_PER_MPI_PROCESS cfg) =
           temperatures_last (ps ! r) ! Suc (ROWS_PER_MPI_PROCESS cfg)"
    if "down_neighbour_rank (length ps) r = None"
    using that
    by (simp add: exchanged_def Let_def nth_write_rows_outside length_read_rows
        split: option.split)
qed

lemma iteration_cell:
  assumes "r < length (processes s)"
    and "well_formed cfg (temperatures (processes s ! r))"
    and "2 \<le> COLUMNS_PER_MPI_PROCESS cfg"
    and "1 \<le> i" and "i \<le> ROWS_PER_MPI_PROCESS cfg"
    and "j < COLUMNS_PER_MPI_PROCESS cfg"
  shows "temperatures (processes (iteration cfg s) ! r) ! i ! j =
           (if temperatures (processes s ! r) ! i ! j = MAX_TEMPERATURE cfg
            then temperatures (processes s ! r) ! i ! j
            else stencil_value cfg (temperatures_last (exchanged cfg (processes s) r)) i j)"
  using assms
  by (simp add: temperatures_iteration propagate_cell stencil_value_def)

lemma processes_iteration:
  "r < length (processes s) \<Longrightarrow>
   processes (iteration cfg s) ! r =
     max_temperature_change cfg (propagate_temperatures cfg (exchanged cfg (processes s) r))"
  by (simp add: iteration_def Let_def length_exchange_ghost_cells nth_exchange_ghost_cells)

lemma iteration_ghost_rows:
  assumes r: "r < length (processes s)"
  shows "up_neighbour_rank r = None \<Longrightarrow>
         temperatures_last (processes (iteration cfg s) ! r) ! 0 =
           temperatures_last (processes s ! r) ! 0"
    and "down_neighbour_rank (length (processes s)) r = None \<Longrightarrow>
         temperatures_last (processes (iteration cfg s) ! r) ! Suc (ROWS_PER_MPI_PROCESS cfg) =
           temperatures_last (processes s ! r) ! Suc (ROWS_PER_MPI_PROCESS cfg)"
proof -
  have a: "0 \<notin> set [1 ..< ROWS_PER_MPI_PROCESS cfg + 1]"
    and b: "Suc (ROWS_PER_MPI_PROCESS cfg) \<notin> set [1 ..< ROWS_PER_MPI_PROCESS cfg + 1]"
    by auto
  have l: "temperatures_last (propagate_temperatures cfg p) = temperatures_last p" for p
    by (simp add: propagate_temperatures_def)
  show "temperatures_last (processes (iteration cfg s) ! r) ! 0 =
           temperatures_last (processes s ! r) ! 0"
    if "up_neighbour_rank r = None"
    unfolding processes_iteration [OF r] temperatures_last_max_temperature_change
      copy_loop_other_row [OF a] l
    by (rule exchanged_ghost_rows(1) [OF that])
  show "temperatures_last (processes (iteration cfg s) ! r) ! Suc (ROWS_PER_MPI_PROCESS cfg) =
           temperatures_last (processes s ! r) ! Suc (ROWS_PER_MPI_PROCESS cfg)"
    if "down_neighbour_rank (length (processes s)) r = None"
    unfolding processes_iteration [OF r] temperatures_last_max_temperature_change
      copy_loop_other_row [OF b] l
    by (rule exchanged_ghost_rows(2) [OF that])
qed

lemma iterations_ghost_rows:
  assumes r: "r < length (processes s)"
  shows "up_neighbour_rank r = None \<Longrightarrow>
         temperatures_last (processes (iterations cfg n s) ! r) ! 0 =
           temperatures_last (processes s ! r) ! 0"
    and "down_neighbour_rank (length (processes s)) r = None \<Longrightarrow>
         temperatures_last (processes (iterations cfg n s) ! r) ! Suc (ROWS_PER_MPI_PROCESS cfg) =
           temperatures_last (processes s ! r) ! Suc (ROWS_PER_MPI_PROCESS cfg)"
proof -
  have step: "iterations cfg (Suc n) s = iteration cfg (iterations cfg n s)" for n
    by (simp add: iterations_def)
  have r': "r < length (processes (iterations cfg n s))" for n
    using r by (simp add: length_iterations)
  show "temperatures_last (processes (iterations cfg n s) ! r) ! 0 =
           temperatures_last (processes s ! r) ! 0"
    if "up_neighbour_rank r = None"
  proof (induction n)
    case 0
    show ?case by (simp add: iterations_def)
  next
    case (Suc n)
    then show ?case
      unfolding step by (simp add: iteration_ghost_rows(1) [OF r' that])
  qed
  show "temperatures_last (processes (iterations cfg n s) ! r) ! Suc (ROWS_PER_MPI_PROCESS cfg) =
           temperatures_last (processes s ! r) ! Suc (ROWS_PER_MPI_PROCESS cfg)"
    if d: "down_neighbour_rank (length (processes s)) r = None"
  proof (induction n)
    case 0
    show ?case by (simp add: iterations_def)
  next
    case (Suc n)
    have "down_neighbour_rank (length (processes (iterations cfg n s))) r = None"
      using d by (simp add: length_iterations)
    from iteration_ghost_rows(2) [OF r' this] Suc show ?case
      unfolding step by simp
  qed
qed

lemma concat_blocks:
  "\<forall>x \<in> set xs. length (f x) = n \<Longrightarrow> r < length xs \<Longrightarrow> k < n \<Longrightarrow>
   concat (map f xs) ! (r * n + k) = f (xs ! r) ! k"
proof (induction xs arbitrary: r)
  case Nil
  then show ?case by simp
next
  case (Cons x xs)
  show ?case
  proof (cases r)
    case 0
    with Cons.prems show ?thesis by (simp add: nth_append)
  next
    case (Suc r')
    with Cons.prems have "concat (map f xs) ! (r' * n + k) = f (xs ! r') ! k"
      by (intro Cons.IH) simp_all
    with Suc Cons.prems show ?thesis
      by (simp add: nth_append add.assoc)
  qed
qed

lemma gather_row:
  assumes "\<forall>p \<in> set ps. length (temperatures p) = ROWS_PER_MPI_PROCESS cfg + 2"
    and "r < length ps" and "k < ROWS_PER_MPI_PROCESS cfg"
  shows "gather cfg ps ! (r * ROWS_PER_MPI_PROCESS cfg + k) = temperatures (ps ! r) ! Suc k"
proof -
  have "\<forall>p \<in> set ps. length (read_rows (temperatures p) 1 (ROWS_PER_MPI_PROCESS cfg)) =
          ROWS_PER_MPI_PROCESS cfg"
    using assms(1) by (simp add: length_read_rows)
  from concat_blocks [OF this assms(2,3)] assms show ?thesis
    by (simp add: gather_def nth_read_rows)
qed

lemma length_temperatures_iteration:
  assumes "r < length (processes s)"
  shows "length (temperatures (processes (iteration cfg s) ! r)) =
         length (temperatures (processes s ! r))"
proof -
  have "length (map length (propagate cfg prev t)) = length (map length t)" for prev t
    by (simp only: map_length_propagate)
  then show ?thesis
    by (simp add: temperatures_iteration [OF assms])
qed

section \<open>The steps of the exchange\<close>

lemma up_neighbour_rank_simps:
  "up_neighbour_rank r = None \<longleftrightarrow> r = 0"
  "up_neighbour_rank r = Some d \<longleftrightarrow> r \<noteq> 0 \<and> d = r - 1"
  by (auto simp: up_neighbour_rank_def)

lemma down_neighbour_rank_simps:
  "down_neighbour_rank W r = None \<longleftrightarrow> r = W - 1"
  "down_neighbour_rank W r = Some d \<longleftrightarrow> r \<noteq> W - 1 \<and> d = r + 1"
  by (auto simp: down_neighbour_rank_def)

lemma nth_four:
  "k < 4 \<and> x = [a, b, c, d] ! k \<longleftrightarrow>
     k = 0 \<and> x = a \<or> k = 1 \<and> x = b \<or> k = 2 \<and> x = c \<or> k = 3 \<and> x = d"
proof (cases "k < 4")
  case True
  then consider "k = 0" | "k = 1" | "k = 2" | "k = 3" by linarith
  then show ?thesis by cases simp_all
next
  case False
  then show ?thesis by auto
qed

lemma next_call_exchange:
  "next_call (ghost_exchange_calls cfg W) w r = Some c \<longleftrightarrow>
     r < length w \<and>
     (fst (w ! r) = 0 \<and> c = Ssend (up_neighbour_rank r) (send_row 1) \<or>
      fst (w ! r) = 1 \<and>
        c = Recv (down_neighbour_rank W r) (recv_row (ROWS_PER_MPI_PROCESS cfg + 1)) \<or>
      fst (w ! r) = 2 \<and>
        c = Ssend (down_neighbour_rank W r) (send_row (ROWS_PER_MPI_PROCESS cfg)) \<or>
      fst (w ! r) = 3 \<and> c = Recv (up_neighbour_rank r) (recv_row 0))"
proof -
  have "next_call (ghost_exchange_calls cfg W) w r = Some c \<longleftrightarrow>
        r < length w \<and> (fst (w ! r) < 4 \<and> c = ghost_exchange_calls cfg W r ! fst (w ! r))"
    by (auto simp: next_call_def ghost_exchange_calls_def)
  then show ?thesis
    unfolding ghost_exchange_calls_def nth_four .
qed

lemma exchange_send_null:
  "next_call (ghost_exchange_calls cfg W) w r = Some (Ssend None buf) \<Longrightarrow>
   r < length w \<and> (fst (w ! r) = 0 \<and> r = 0 \<or> fst (w ! r) = 2 \<and> r = W - 1)"
  by (auto simp: next_call_exchange up_neighbour_rank_def down_neighbour_rank_def
      split: if_splits)

lemma exchange_recv_null:
  "next_call (ghost_exchange_calls cfg W) w r = Some (Recv None store) \<Longrightarrow>
   r < length w \<and> (fst (w ! r) = 1 \<and> r = W - 1 \<or> fst (w ! r) = 3 \<and> r = 0)"
  by (auto simp: next_call_exchange up_neighbour_rank_def down_neighbour_rank_def
      split: if_splits)

lemma exchange_send_some:
  "next_call (ghost_exchange_calls cfg W) w r = Some (Ssend (Some d) buf) \<Longrightarrow>
   r < length w \<and>
   (fst (w ! r) = 0 \<and> r \<noteq> 0 \<and> d = r - 1 \<and> buf = send_row 1 \<or>
    fst (w ! r) = 2 \<and> r \<noteq> W - 1 \<and> d = r + 1 \<and> buf = send_row (ROWS_PER_MPI_PROCESS cfg))"
  by (auto simp: next_call_exchange up_neighbour_rank_def down_neighbour_rank_def
      split: if_splits)

lemma exchange_recv_some:
  "next_call (ghost_exchange_calls cfg W) w r = Some (Recv (Some s) store) \<Longrightarrow>
   r < length w \<and>
   (fst (w ! r) = 1 \<and> r \<noteq> W - 1 \<and> s = r + 1 \<and>
      store = recv_row (ROWS_PER_MPI_PROCESS cfg + 1) \<or>
    fst (w ! r) = 3 \<and> r \<noteq> 0 \<and> s = r - 1 \<and> store = recv_row 0)"
  by (auto simp: next_call_exchange up_neighbour_rank_def down_neighbour_rank_def
      split: if_splits)

text \<open>The steps of the exchange: the general semantics, specialised to the four calls.\<close>

lemma step_exchange_cases:
  assumes "step (ghost_exchange_calls cfg W) w w'"
  obtains
    (first_send_up) "0 < length w" "fst (w ! 0) = 0" "w' = w[0 := advance id (w ! 0)]"
  | (last_recv_down) "W - 1 < length w" "fst (w ! (W - 1)) = 1"
      "w' = w[W - 1 := advance id (w ! (W - 1))]"
  | (last_send_down) "W - 1 < length w" "fst (w ! (W - 1)) = 2"
      "w' = w[W - 1 := advance id (w ! (W - 1))]"
  | (first_recv_up) "0 < length w" "fst (w ! 0) = 3" "w' = w[0 := advance id (w ! 0)]"
  | (up) s where "0 < s" "s < length w" "fst (w ! s) = 0" "fst (w ! (s - 1)) = 1"
      "s - 1 \<noteq> W - 1"
      "w' = w[s := advance id (w ! s),
              s - 1 := advance (recv_row (ROWS_PER_MPI_PROCESS cfg + 1) (send_row 1 (snd (w ! s))))
                         (w ! (s - 1))]"
  | (down) s where "s + 1 < length w" "s \<noteq> W - 1" "fst (w ! s) = 2" "fst (w ! (s + 1)) = 3"
      "w' = w[s := advance id (w ! s),
              s + 1 := advance (recv_row 0 (send_row (ROWS_PER_MPI_PROCESS cfg) (snd (w ! s))))
                         (w ! (s + 1))]"
  using assms
proof cases
  case (local r f)
  then show ?thesis by (simp add: next_call_exchange)
next
  case (send_null r buf)
  from exchange_send_null [OF send_null(2)] send_null(1) show ?thesis
    using first_send_up last_send_down by auto
next
  case (recv_null r store)
  from exchange_recv_null [OF recv_null(2)] recv_null(1) show ?thesis
    using first_recv_up last_recv_down by auto
next
  case (transfer s d buf store)
  from exchange_send_some [OF transfer(2)] exchange_recv_some [OF transfer(3)] transfer(1,4)
  show ?thesis
    using up [of s] down [of s] by auto
next
  case barrier
  then show ?thesis
    by (cases w) (auto simp: next_call_exchange)
qed

lemma wave_first_0: "0 < W \<Longrightarrow> n \<le> 2 * W + 2 \<Longrightarrow> wave W n 0 = 0 \<longleftrightarrow> n = 0"
  by (auto simp: wave_def)

lemma wave_first_3: "0 < W \<Longrightarrow> n \<le> 2 * W + 2 \<Longrightarrow> wave W n 0 = 3 \<longleftrightarrow> n = 2 * W + 1"
  by (auto simp: wave_def)

lemma wave_last_1: "0 < W \<Longrightarrow> n \<le> 2 * W + 2 \<Longrightarrow> wave W n (W - 1) = 1 \<longleftrightarrow> n = W"
  by (auto simp: wave_def)

lemma wave_last_2: "0 < W \<Longrightarrow> n \<le> 2 * W + 2 \<Longrightarrow> wave W n (W - 1) = 2 \<longleftrightarrow> n = W + 1"
  by (auto simp: wave_def)

lemma wave_1: "r < W \<Longrightarrow> n \<le> 2 * W + 2 \<Longrightarrow> wave W n r = 1 \<longleftrightarrow> n = r + 1"
  by (auto simp: wave_def)

lemma wave_3: "r < W \<Longrightarrow> n \<le> 2 * W + 2 \<Longrightarrow> wave W n r = 3 \<longleftrightarrow> n = 2 * W + 1 - r"
  by (auto simp: wave_def)

lemma wave_4: "r < W \<Longrightarrow> n \<le> 2 * W + 2 \<Longrightarrow> wave W n 0 = 4 \<longleftrightarrow> n = 2 * W + 2"
  by (auto simp: wave_def)

lemma in_wave_update1:
  assumes "in_wave n w" and "r < length w"
    and "wave (length w) (Suc n) r = Suc (wave (length w) n r)"
    and "\<forall>q < length w. q \<noteq> r \<longrightarrow> wave (length w) (Suc n) q = wave (length w) n q"
  shows "in_wave (Suc n) (w[r := advance f (w ! r)])"
  using assms by (auto simp: in_wave_def nth_list_update advance_def)

lemma in_wave_update2:
  assumes "in_wave n w" and "s < length w" and "d < length w" and "s \<noteq> d"
    and "wave (length w) (Suc n) s = Suc (wave (length w) n s)"
    and "wave (length w) (Suc n) d = Suc (wave (length w) n d)"
    and "\<forall>q < length w. q \<noteq> s \<and> q \<noteq> d \<longrightarrow> wave (length w) (Suc n) q = wave (length w) n q"
  shows "in_wave (Suc n) (w[s := advance f (w ! s), d := advance g (w ! d)])"
  using assms by (auto simp: in_wave_def nth_list_update advance_def)

lemma length_step: "step prog w w' \<Longrightarrow> length w' = length w"
  by (induction rule: step.induct) simp_all

lemma wave_step:
  assumes st: "step (ghost_exchange_calls cfg (length w)) w w'"
    and inv: "in_wave n w" and n: "n \<le> 2 * length w + 2"
  shows "n < 2 * length w + 2 \<and> in_wave (Suc n) w'"
  using st
proof (cases rule: step_exchange_cases)
  case first_send_up
  then have n0: "n = 0"
    using inv n wave_first_0 [of "length w" n] by (simp add: in_wave_def)
  have "in_wave (Suc n) (w[0 := advance id (w ! 0)])"
    by (rule in_wave_update1 [OF inv]) (use first_send_up(1) in \<open>auto simp: wave_def n0 Suc_le_eq\<close>)
  then show ?thesis
    by (simp add: first_send_up(3) n0)
next
  case last_recv_down
  then have n0: "n = length w"
    using inv n wave_last_1 [of "length w" n] by (cases w) (simp_all add: in_wave_def)
  have "in_wave (Suc n) (w[length w - 1 := advance id (w ! (length w - 1))])"
    by (rule in_wave_update1 [OF inv]) (use last_recv_down(1) in \<open>auto simp: wave_def n0 Suc_le_eq\<close>)
  then show ?thesis
    using last_recv_down(1) by (simp add: last_recv_down(3) n0)
next
  case last_send_down
  then have n0: "n = length w + 1"
    using inv n wave_last_2 [of "length w" n] by (cases w) (simp_all add: in_wave_def)
  have "in_wave (Suc n) (w[length w - 1 := advance id (w ! (length w - 1))])"
    by (rule in_wave_update1 [OF inv]) (use last_send_down(1) in \<open>auto simp: wave_def n0 Suc_le_eq\<close>)
  then show ?thesis
    using last_send_down(1) by (simp add: last_send_down(3) n0)
next
  case first_recv_up
  then have n0: "n = 2 * length w + 1"
    using inv n wave_first_3 [of "length w" n] by (simp add: in_wave_def)
  have "in_wave (Suc n) (w[0 := advance id (w ! 0)])"
    by (rule in_wave_update1 [OF inv]) (use first_recv_up(1) in \<open>auto simp: wave_def n0 Suc_le_eq\<close>)
  then show ?thesis
    by (simp add: first_recv_up(3) n0)
next
  case (up s)
  then have n0: "n = s"
    using inv n wave_1 [of "s - 1" "length w" n] by (simp add: in_wave_def)
  have "in_wave (Suc n) (w[s := advance id (w ! s),
          s - 1 := advance (recv_row (ROWS_PER_MPI_PROCESS cfg + 1) (send_row 1 (snd (w ! s))))
                     (w ! (s - 1))])"
    by (rule in_wave_update2 [OF inv]) (use up(1,2) in \<open>auto simp: wave_def n0 Suc_le_eq\<close>)
  then show ?thesis
    using up(2) by (simp add: up(6) n0)
next
  case (down s)
  then have n0: "n = 2 * length w + 1 - (s + 1)"
    using inv n wave_3 [of "s + 1" "length w" n] by (simp add: in_wave_def)
  have "in_wave (Suc n) (w[s := advance id (w ! s),
          s + 1 := advance (recv_row 0 (send_row (ROWS_PER_MPI_PROCESS cfg) (snd (w ! s))))
                     (w ! (s + 1))])"
    by (rule in_wave_update2 [OF inv]) (use down(1) in \<open>auto simp: wave_def n0 Suc_le_eq\<close>)
  then show ?thesis
    using down(1) by (simp add: down(5) n0)
qed

lemma wave_progress:
  assumes inv: "in_wave n w" and W: "0 < length w" and n: "n < 2 * length w + 2"
  shows "\<exists>w'. step (ghost_exchange_calls cfg (length w)) w w'"
proof -
  let ?W = "length w" and ?P = "ghost_exchange_calls cfg (length w)"
  have pc: "fst (w ! r) = wave ?W n r" if "r < ?W" for r
    using inv that by (simp add: in_wave_def)
  consider "n = 0" | "1 \<le> n" "n < ?W" | "n = ?W" | "n = ?W + 1"
    | "?W + 2 \<le> n" "n \<le> 2 * ?W" | "n = 2 * ?W + 1"
    using n by linarith
  then show ?thesis
  proof cases
    case 1
    have "next_call ?P w 0 = Some (Ssend None (send_row 1))"
      using W pc [of 0] 1 by (simp add: next_call_exchange wave_def up_neighbour_rank_def)
    then show ?thesis by (blast intro: step.send_null)
  next
    case 2
    have "next_call ?P w n = Some (Ssend (Some (n - 1)) (send_row 1))"
      using 2 pc [of n] by (auto simp: next_call_exchange wave_def up_neighbour_rank_def)
    moreover have "next_call ?P w (n - 1) =
        Some (Recv (Some n) (recv_row (ROWS_PER_MPI_PROCESS cfg + 1)))"
      using 2 pc [of "n - 1"]
      by (auto simp: next_call_exchange wave_def down_neighbour_rank_def)
    moreover have "n \<noteq> n - 1" using 2 by simp
    ultimately show ?thesis by (blast intro: step.transfer)
  next
    case 3
    have "next_call ?P w (?W - 1) = Some (Recv None (recv_row (ROWS_PER_MPI_PROCESS cfg + 1)))"
      using W pc [of "?W - 1"] 3
      by (simp add: next_call_exchange wave_def down_neighbour_rank_def)
    then show ?thesis by (blast intro: step.recv_null)
  next
    case 4
    have "next_call ?P w (?W - 1) = Some (Ssend None (send_row (ROWS_PER_MPI_PROCESS cfg)))"
      using W pc [of "?W - 1"] 4
      by (simp add: next_call_exchange wave_def down_neighbour_rank_def)
    then show ?thesis by (blast intro: step.send_null)
  next
    case 5
    define q where "q = 2 * ?W + 1 - n"
    have q: "1 \<le> q" "q < ?W" "n = 2 * ?W + 1 - q"
      using 5 by (simp_all add: q_def)
    have "next_call ?P w (q - 1) = Some (Ssend (Some q) (send_row (ROWS_PER_MPI_PROCESS cfg)))"
      using q(1,2) 5 pc [of "q - 1"] unfolding q(3)
      by (auto simp: next_call_exchange wave_def down_neighbour_rank_def)
    moreover have "next_call ?P w q = Some (Recv (Some (q - 1)) (recv_row 0))"
      using q(1,2) 5 pc [of q] unfolding q(3)
      by (auto simp: next_call_exchange wave_def up_neighbour_rank_def)
    moreover have "q - 1 \<noteq> q" using q by simp
    ultimately show ?thesis by (blast intro: step.transfer)
  next
    case 6
    have "next_call ?P w 0 = Some (Recv None (recv_row 0))"
      using W pc [of 0] 6 by (simp add: next_call_exchange wave_def up_neighbour_rank_def)
    then show ?thesis by (blast intro: step.recv_null)
  qed
qed

lemma in_wave_start: "in_wave 0 (start ps)"
  by (simp add: in_wave_def start_def wave_def)

lemma exchange_run:
  assumes "(step (ghost_exchange_calls cfg (length ps)) ^^ k) (start ps) w"
  shows "length w = length ps \<and> k \<le> 2 * length ps + 2 \<and> in_wave k w"
  using assms
proof (induction k arbitrary: w)
  case 0
  then have "w = start ps" by simp
  then show ?case by (simp add: in_wave_start) (simp add: start_def)
next
  case (Suc k)
  from Suc.prems obtain v where v: "(step (ghost_exchange_calls cfg (length ps)) ^^ k) (start ps) v"
    and st: "step (ghost_exchange_calls cfg (length ps)) v w"
    by auto
  from Suc.IH [OF v] have l: "length v = length ps" and k: "k \<le> 2 * length v + 2"
    and inv: "in_wave k v"
    by simp_all
  from wave_step [OF st [folded l] inv k] length_step [OF st] l show ?case
    by simp
qed

lemma in_wave_finished:
  assumes "in_wave k w" and "0 < length w" and "k \<le> 2 * length w + 2"
  shows "finished (ghost_exchange_calls cfg (length w)) w \<longleftrightarrow> k = 2 * length w + 2"
proof
  assume "finished (ghost_exchange_calls cfg (length w)) w"
  with assms(2) have "fst (w ! 0) = 4"
    by (simp add: finished_def ghost_exchange_calls_def)
  with assms show "k = 2 * length w + 2"
    using wave_4 [of 0 "length w" k] by (simp add: in_wave_def)
next
  assume "k = 2 * length w + 2"
  with assms(1) show "finished (ghost_exchange_calls cfg (length w)) w"
    by (simp add: finished_def ghost_exchange_calls_def in_wave_def wave_def)
qed

lemma after_calls_4: "after_calls cfg ps r 4 = exchanged cfg ps r"
  by (simp add: after_calls_def exchanged_def recv_row_def send_row_def Let_def
      split: option.split)

lemma temperatures_after_calls: "temperatures (after_calls cfg ps r k) = temperatures (ps ! r)"
  by (simp add: after_calls_def recv_row_def Let_def split: option.split)

lemma send_row_after_calls: "send_row i (after_calls cfg ps r k) = send_row i (ps ! r)"
  by (simp add: send_row_def temperatures_after_calls)

lemma data_inv_update1:
  assumes "data_inv cfg ps w" and "r < length w"
    and "after_calls cfg ps r (Suc (fst (w ! r))) = after_calls cfg ps r (fst (w ! r))"
  shows "data_inv cfg ps (w[r := advance id (w ! r)])"
  using assms by (auto simp: data_inv_def nth_list_update advance_def)

lemma data_inv_update2:
  assumes "data_inv cfg ps w" and "s < length w" and "d < length w" and "s \<noteq> d"
    and "after_calls cfg ps s (Suc (fst (w ! s))) = after_calls cfg ps s (fst (w ! s))"
    and "after_calls cfg ps d (Suc (fst (w ! d))) =
         store (buf (ps ! s)) (after_calls cfg ps d (fst (w ! d)))"
    and "buf (after_calls cfg ps s (fst (w ! s))) = buf (ps ! s)"
  shows "data_inv cfg ps (w[s := advance id (w ! s), d := advance (store (buf (snd (w ! s)))) (w ! d)])"
  using assms by (auto simp: data_inv_def nth_list_update advance_def)

lemma data_inv_step:
  assumes st: "step (ghost_exchange_calls cfg (length ps)) w w'" and inv: "data_inv cfg ps w"
  shows "data_inv cfg ps w'"
proof -
  have l: "length w = length ps" using inv by (simp add: data_inv_def)
  from st show ?thesis
  proof (cases rule: step_exchange_cases)
    case first_send_up
    show ?thesis unfolding first_send_up(3)
      by (rule data_inv_update1 [OF inv])
        (use first_send_up in \<open>simp_all add: after_calls_def\<close>)
  next
    case last_recv_down
    show ?thesis unfolding last_recv_down(3)
      by (rule data_inv_update1 [OF inv])
        (use last_recv_down in \<open>simp_all add: after_calls_def down_neighbour_rank_def\<close>)
  next
    case last_send_down
    show ?thesis unfolding last_send_down(3)
      by (rule data_inv_update1 [OF inv])
        (use last_send_down in \<open>simp_all add: after_calls_def\<close>)
  next
    case first_recv_up
    show ?thesis unfolding first_recv_up(3)
      by (rule data_inv_update1 [OF inv])
        (use first_recv_up in \<open>simp_all add: after_calls_def up_neighbour_rank_def\<close>)
  next
    case (up s)
    show ?thesis unfolding up(6)
      by (rule data_inv_update2 [OF inv])
        (use up l in \<open>auto simp: after_calls_def down_neighbour_rank_def send_row_def\<close>)
  next
    case (down s)
    show ?thesis unfolding down(5)
      by (rule data_inv_update2 [OF inv])
        (use down l in \<open>auto simp: send_row_after_calls\<close>,
          auto simp: after_calls_def up_neighbour_rank_def Let_def)
  qed
qed

lemma data_inv_start: "data_inv cfg ps (start ps)"
  by (simp add: data_inv_def start_def after_calls_def)

lemma data_inv_reachable:
  "(step (ghost_exchange_calls cfg (length ps)))\<^sup>*\<^sup>* (start ps) w \<Longrightarrow> data_inv cfg ps w"
  by (induction rule: rtranclp_induct) (simp_all add: data_inv_start data_inv_step)

lemma exchanged_rows:
  assumes r: "r < length ps"
    and wf: "list_all (\<lambda>p. well_formed cfg (temperatures p) \<and>
                          well_formed cfg (temperatures_last p)) ps"
  shows "temperatures_last (exchanged cfg ps r) ! i =
     (if i = 0 \<and> r \<noteq> 0 then temperatures (ps ! (r - 1)) ! ROWS_PER_MPI_PROCESS cfg
      else if i = ROWS_PER_MPI_PROCESS cfg + 1 \<and> r \<noteq> length ps - 1
        then temperatures (ps ! (r + 1)) ! 1
      else temperatures_last (ps ! r) ! i)"
proof -
  have len: "length (temperatures (ps ! q)) = ROWS_PER_MPI_PROCESS cfg + 2"
    "length (temperatures_last (ps ! q)) = ROWS_PER_MPI_PROCESS cfg + 2" if "q < length ps" for q
    using wf that by (simp_all add: list_all_length well_formed_def)
  have up: "r - 1 < length ps" using r by simp
  have down: "r + 1 < length ps" if "r \<noteq> length ps - 1" using r that by simp
  show ?thesis
    using len [OF r] len [OF up] len(1) [OF down]
    by (auto simp: exchanged_def Let_def up_neighbour_rank_def down_neighbour_rank_def
        read_rows_single write_rows_single nth_list_update)
qed

lemmas call_defs =
  next_call_def ghost_exchange_calls_def up_neighbour_rank_def down_neighbour_rank_def

lemmas exchange_defs =
  advance_def send_row_def recv_row_def read_rows_def write_rows_def

lemma exchange2_steps:
  "step (ghost_exchange_calls cfg1 2) (exchange2 0) (exchange2 1)"
  "step (ghost_exchange_calls cfg1 2) (exchange2 1) (exchange2 2)"
  "step (ghost_exchange_calls cfg1 2) (exchange2 2) (exchange2 3)"
  "step (ghost_exchange_calls cfg1 2) (exchange2 3) (exchange2 4)"
  "step (ghost_exchange_calls cfg1 2) (exchange2 4) (exchange2 5)"
  "step (ghost_exchange_calls cfg1 2) (exchange2 5) (exchange2 6)"
proof -
  let ?P = "ghost_exchange_calls cfg1 2"
  have "step ?P (exchange2 0) ((exchange2 0)[0 := advance id (exchange2 0 ! 0)])"
    by (rule step.send_null [where buf = "send_row 1"])
      (simp add: call_defs exchange2_def)
  then show "step ?P (exchange2 0) (exchange2 1)"
    by (simp add: exchange2_def advance_def eval_nat_numeral)
  have "step ?P (exchange2 1) ((exchange2 1)[1 := advance id (exchange2 1 ! 1),
          0 := advance (recv_row (ROWS_PER_MPI_PROCESS cfg1 + 1) (send_row 1 (snd (exchange2 1 ! 1))))
                 (exchange2 1 ! 0)])"
    by (rule step.transfer) (simp_all add: call_defs exchange2_def)
  then show "step ?P (exchange2 1) (exchange2 2)"
    by (simp add: exchange2_def exchange_defs cfg1_def half_def eval_nat_numeral)
  have "step ?P (exchange2 2) ((exchange2 2)[1 := advance id (exchange2 2 ! 1)])"
    by (rule step.recv_null [where store = "recv_row (ROWS_PER_MPI_PROCESS cfg1 + 1)"])
      (simp add: call_defs exchange2_def)
  then show "step ?P (exchange2 2) (exchange2 3)"
    by (simp add: exchange2_def advance_def eval_nat_numeral)
  have "step ?P (exchange2 3) ((exchange2 3)[1 := advance id (exchange2 3 ! 1)])"
    by (rule step.send_null [where buf = "send_row (ROWS_PER_MPI_PROCESS cfg1)"])
      (simp add: call_defs exchange2_def)
  then show "step ?P (exchange2 3) (exchange2 4)"
    by (simp add: exchange2_def advance_def eval_nat_numeral)
  have "step ?P (exchange2 4) ((exchange2 4)[0 := advance id (exchange2 4 ! 0),
          1 := advance (recv_row 0 (send_row (ROWS_PER_MPI_PROCESS cfg1) (snd (exchange2 4 ! 0))))
                 (exchange2 4 ! 1)])"
    by (rule step.transfer) (simp_all add: call_defs exchange2_def)
  then show "step ?P (exchange2 4) (exchange2 5)"
    by (simp add: exchange2_def exchange_defs cfg1_def half_def eval_nat_numeral)
  have "step ?P (exchange2 5) ((exchange2 5)[0 := advance id (exchange2 5 ! 0)])"
    by (rule step.recv_null [where store = "recv_row 0"])
      (simp add: call_defs exchange2_def)
  then show "step ?P (exchange2 5) (exchange2 6)"
    by (simp add: exchange2_def advance_def eval_nat_numeral)
qed

lemma exchange2_run:
  "(step (ghost_exchange_calls cfg1 (length ranks2)) ^^ 6) (start ranks2) (exchange2 6)"
proof -
  let ?P = "ghost_exchange_calls cfg1 2"
  have r1: "(step ?P ^^ Suc 0) (exchange2 0) (exchange2 1)"
    using exchange2_steps(1) by (simp add: eq_OO)
  have r2: "(step ?P ^^ Suc (Suc 0)) (exchange2 0) (exchange2 2)"
    using r1 exchange2_steps(2) by (rule relpowp_Suc_I)
  have r3: "(step ?P ^^ Suc (Suc (Suc 0))) (exchange2 0) (exchange2 3)"
    using r2 exchange2_steps(3) by (rule relpowp_Suc_I)
  have r4: "(step ?P ^^ Suc (Suc (Suc (Suc 0)))) (exchange2 0) (exchange2 4)"
    using r3 exchange2_steps(4) by (rule relpowp_Suc_I)
  have r5: "(step ?P ^^ Suc (Suc (Suc (Suc (Suc 0))))) (exchange2 0) (exchange2 5)"
    using r4 exchange2_steps(5) by (rule relpowp_Suc_I)
  have r6: "(step ?P ^^ Suc (Suc (Suc (Suc (Suc (Suc 0)))))) (exchange2 0) (exchange2 6)"
    using r5 exchange2_steps(6) by (rule relpowp_Suc_I)
  have six: "(6::nat) = Suc (Suc (Suc (Suc (Suc (Suc 0)))))" by simp
  have e: "start ranks2 = exchange2 0" and l: "length ranks2 = 2"
    by (simp_all add: exchange2_def start_def ranks2_def)
  show ?thesis using r6 unfolding e l six [symmetric] .
qed

lemma exchange2_finished: "finished (ghost_exchange_calls cfg1 (length ranks2)) (exchange2 6)"
  by (auto simp: finished_def exchange2_def ghost_exchange_calls_def ranks2_def
      numeral_2_eq_2 less_Suc_eq)

lemma wave_reachable:
  assumes "0 < length ps" and "k \<le> 2 * length ps + 2"
  shows "\<exists>w. (step (ghost_exchange_calls cfg (length ps)) ^^ k) (start ps) w"
  using assms(2)
proof (induction k)
  case 0
  show ?case by auto
next
  case (Suc k)
  then obtain w where w: "(step (ghost_exchange_calls cfg (length ps)) ^^ k) (start ps) w"
    by auto
  from exchange_run [OF w] have l: "length w = length ps" and inv: "in_wave k w"
    by simp_all
  from wave_progress [OF inv, of cfg] assms(1) Suc.prems l
  obtain w' where "step (ghost_exchange_calls cfg (length ps)) w w'"
    by auto
  with w show ?case by auto
qed

lemma step_from_start:
  assumes "step (ghost_exchange_calls cfg (length ps)) (start ps) w'"
  shows "w' = (start ps)[0 := advance id (start ps ! 0)]"
proof -
  have l: "length (start ps) = length ps" by (simp add: start_def)
  have z: "fst (start ps ! r) = 0" if "r < length ps" for r
    using that by (simp add: start_def)
  from assms [folded l] show ?thesis
  proof (cases rule: step_exchange_cases)
    case (up s)
    with z [of "s - 1"] l show ?thesis by simp
  next
    case (down s)
    with z [of s] l show ?thesis by simp
  qed (use z l in \<open>fastforce+\<close>)
qed

section \<open>The calls of the whole program\<close>
































section \<open>Claims\<close>

text \<open>
  C1, as stated, fails for a cell that is not a fixed source but has reached
  \<^verbatim>\<open>MAX_TEMPERATURE\<close>. One rank, \<^verbatim>\<open>MAX_TEMPERATURE\<close> 50, input \<open>[[4, 5, 6], [7, 8, 50]]\<close>, the
  ghost rows of \<^verbatim>\<open>temperatures_last\<close> holding 182 from the stack: owned cell \<open>(1, 1)\<close> holds 5
  in the input, so it is no fixed source; the first update stores \<open>(182 + 8 + 4 + 6) / 4 = 50\<close>
  into it; the second update skips it, so it holds 50 again, while the four-point
  average of its neighbours in \<^verbatim>\<open>temperatures_last\<close> is \<open>290 / 3\<close>.
\<close>

theorem heated_cell_counterexample:
  "MAX_TEMPERATURE cfg0 = 50 \<and>
   all_temperatures (stack0 182) ! 0 ! 1 = 5 \<and>
   temperatures (data_acquisition cfg0 [stack0 182] ! 0) ! 1 ! 1 = 5 \<and>
   temperatures (processes warm ! 0) ! 1 ! 1 = 50 \<and>
   temperatures_last (exchanged cfg0 (processes warm) 0) =
     [[182, 182, 182], [194 / 3, 50, 79], [194 / 3, 61, 50], [182, 182, 182]] \<and>
   temperatures (processes (iteration cfg0 warm) ! 0) =
     propagate cfg0 (temperatures_last (exchanged cfg0 (processes warm) 0))
       (temperatures (processes warm ! 0)) \<and>
   temperatures (processes (iteration cfg0 warm) ! 0) ! 1 ! 1 = 50 \<and>
   middle_value (temperatures_last (exchanged cfg0 (processes warm) 0)) 1 1 = 290 / 3"
proof -
  have w: "processes warm =
    [\<lparr>temperatures = [[0, 0, 0], [194 / 3, 50, 79], [194 / 3, 61, 50], [0, 0, 0]],
      temperatures_last = [[182, 182, 182], [194 / 3, 50, 79], [194 / 3, 61, 50], [182, 182, 182]],
      all_temperatures = [[4, 5, 6], [7, 8, 50]], my_temperature_change = 73\<rparr>]"
    by (simp add: warm_def run_defs cfg0_def stack0_def)
  have a: "temperatures (data_acquisition cfg0 [stack0 182] ! 0) ! 1 ! 1 = 5"
    by (simp add: run_defs cfg0_def stack0_def)
  have e: "temperatures_last (exchanged cfg0 (processes warm) 0) =
     [[182, 182, 182], [194 / 3, 50, 79], [194 / 3, 61, 50], [182, 182, 182]]"
    unfolding w by (simp add: run_defs cfg0_def)
  have i: "temperatures (processes (iteration cfg0 warm) ! 0) =
     propagate cfg0 (temperatures_last (exchanged cfg0 (processes warm) 0))
       (temperatures (processes warm ! 0))"
    by (rule temperatures_iteration) (simp add: w)
  have p: "temperatures (processes (iteration cfg0 warm) ! 0) ! 1 ! 1 = 50"
    unfolding i e unfolding w by (simp add: run_defs cfg0_def)
  have m: "middle_value (temperatures_last (exchanged cfg0 (processes warm) 0)) 1 1 = 290 / 3"
    unfolding e by (simp add: middle_value_def)
  from a e i p m show ?thesis
    by (simp add: w cfg0_def stack0_def)
qed

text \<open>
  C1, amended. For every owned row \<open>i\<close> in \<open>1 .. ROWS_PER_MPI_PROCESS\<close> and every column \<open>j\<close>
  whose cell of \<^verbatim>\<open>temperatures\<close> holds a value other than \<^verbatim>\<open>MAX_TEMPERATURE\<close> before the
  update (the test the kernels make, whether the input marked the cell or not), one
  stencil update sets \<^verbatim>\<open>temperatures[i][j]\<close> to a quarter of the sum of the four
  neighbours in \<^verbatim>\<open>temperatures_last\<close> when \<open>0 < j < C - 1\<close>, to the third of the sum of the
  upper, lower and right neighbour when \<open>j = 0\<close>, and to the third of the sum of the
  upper, lower and left neighbour (column \<open>C - 2\<close>) when \<open>j = C - 1\<close>. The arrays have
  their declared shape and at least two columns.
\<close>

theorem stencil_update_formula:
  assumes "well_formed cfg t"
    and "2 \<le> COLUMNS_PER_MPI_PROCESS cfg"
    and "1 \<le> i" and "i \<le> ROWS_PER_MPI_PROCESS cfg"
    and "j < COLUMNS_PER_MPI_PROCESS cfg"
    and "t ! i ! j \<noteq> MAX_TEMPERATURE cfg"
  shows "(0 < j \<and> j < COLUMNS_PER_MPI_PROCESS cfg - 1 \<longrightarrow>
            propagate cfg prev t ! i ! j =
              0.25 * (prev ! (i - 1) ! j + prev ! (i + 1) ! j +
                      prev ! i ! (j - 1) + prev ! i ! (j + 1))) \<and>
         (j = 0 \<longrightarrow>
            propagate cfg prev t ! i ! j =
              (prev ! (i - 1) ! 0 + prev ! (i + 1) ! 0 + prev ! i ! 1) / 3.0) \<and>
         (j = COLUMNS_PER_MPI_PROCESS cfg - 1 \<longrightarrow>
            propagate cfg prev t ! i ! j =
              (prev ! (i - 1) ! (COLUMNS_PER_MPI_PROCESS cfg - 1) +
               prev ! (i + 1) ! (COLUMNS_PER_MPI_PROCESS cfg - 1) +
               prev ! i ! (COLUMNS_PER_MPI_PROCESS cfg - 2)) / 3.0)"
  using assms
  by (auto simp: propagate_cell left_value_def middle_value_def right_value_def)

theorem stencil_update_formula_witness:
  "propagate cfg0 grid0 grid0 ! 1 ! 1 = 5 \<and>
   propagate cfg0 grid0 grid0 ! 1 ! 0 = 13 / 3 \<and>
   propagate cfg0 grid0 grid0 ! 2 ! 1 = 73 / 4 \<and>
   propagate cfg0 grid0 grid0 ! 1 ! 2 = 58 / 3"
  using stencil_update_formula [OF well_formed_grid0, of 1 1 grid0]
    stencil_update_formula [OF well_formed_grid0, of 1 0 grid0]
    stencil_update_formula [OF well_formed_grid0, of 2 1 grid0]
    stencil_update_formula [OF well_formed_grid0, of 1 2 grid0]
  by (simp add: cfg0_def grid0_def)

text \<open>
  C2. A fixed-source cell is a cell of the input grid that holds \<^verbatim>\<open>MAX_TEMPERATURE\<close>. Global
  row \<open>g\<close> is owned row \<open>g mod ROWS_PER_MPI_PROCESS + 1\<close> of rank \<open>g div ROWS_PER_MPI_PROCESS\<close>.
  After data acquisition and any number \<open>n\<close> of passes through the loop, on any number of
  ranks and whatever the stacks held at the start, the cell still holds
  \<^verbatim>\<open>MAX_TEMPERATURE\<close> in \<^verbatim>\<open>temperatures\<close>.
\<close>

theorem fixed_source_cells_invariant:
  assumes "proper_start cfg ps"
    and "g < length (all_temperatures (ps ! 0))"
    and "j < COLUMNS_PER_MPI_PROCESS cfg"
    and "all_temperatures (ps ! 0) ! g ! j = MAX_TEMPERATURE cfg"
  shows "temperatures (processes (iterations cfg n (start_run cfg ps snap))
                         ! (g div ROWS_PER_MPI_PROCESS cfg))
           ! (g mod ROWS_PER_MPI_PROCESS cfg + 1) ! j = MAX_TEMPERATURE cfg"
proof -
  let ?s = "start_run cfg ps snap"
  have r: "g div ROWS_PER_MPI_PROCESS cfg < length (processes ?s)"
    using acquired_global_cell(1) [OF assms(1-3)]
    by (simp add: start_run_def length_data_acquisition)
  have "temperatures (processes ?s ! (g div ROWS_PER_MPI_PROCESS cfg))
          ! (g mod ROWS_PER_MPI_PROCESS cfg + 1) ! j = MAX_TEMPERATURE cfg"
    using acquired_global_cell(2) [OF assms(1-3)] assms(4) by (simp add: start_run_def)
  with r show ?thesis by (rule iterations_keeps_max)
qed

theorem fixed_source_cells_invariant_witness:
  "temperatures (processes (iterations cfg1 2 (start_run cfg1 ranks1 [])) ! 1) ! 1 ! 0 = 50"
  using fixed_source_cells_invariant [OF proper_start_ranks1, of 1 0 2 "[]"]
  by (simp add: cfg1_def ranks1_def stack1_def)

text \<open>
  C3. For \<open>W\<close> ranks and a global grid of \<open>R\<close> rows, with \<open>W\<close> dividing \<open>R\<close> and
  \<^verbatim>\<open>ROWS_PER_MPI_PROCESS\<close> being \<open>R div W\<close>: rank \<open>i\<close> receives into its owned rows (of both
  arrays) exactly the global rows \<open>i * R div W\<close> up to, and not including,
  \<open>(i + 1) * R div W\<close>; its upper neighbour is \<open>i - 1\<close> (none for \<open>i = 0\<close>) and its lower
  neighbour is \<open>i + 1\<close> (none for \<open>i = W - 1\<close>); every global row below \<open>R\<close> lies in the range
  of exactly one rank. The arrays have their declared shapes.
\<close>

theorem partition_correct:
  assumes "0 < W" and "W dvd R" and "ROWS_PER_MPI_PROCESS cfg = R div W"
    and "length ps = W"
    and "length (all_temperatures (ps ! 0)) = R"
    and "list_all (\<lambda>r. length r = COLUMNS_PER_MPI_PROCESS cfg) (all_temperatures (ps ! 0))"
    and "list_all (\<lambda>p. well_formed cfg (temperatures p) \<and>
                         well_formed cfg (temperatures_last p)) ps"
    and "i < W"
  shows "read_rows (temperatures_last (data_acquisition cfg ps ! i)) 1 (ROWS_PER_MPI_PROCESS cfg) =
           map (\<lambda>g. all_temperatures (ps ! 0) ! g) [i * R div W ..< (i + 1) * R div W] \<and>
         read_rows (temperatures (data_acquisition cfg ps ! i)) 1 (ROWS_PER_MPI_PROCESS cfg) =
           map (\<lambda>g. all_temperatures (ps ! 0) ! g) [i * R div W ..< (i + 1) * R div W] \<and>
         up_neighbour_rank i = (if i = 0 then None else Some (i - 1)) \<and>
         down_neighbour_rank W i = (if i = W - 1 then None else Some (i + 1)) \<and>
         (\<forall>g < R. \<exists>!w. w < W \<and> w * R div W \<le> g \<and> g < (w + 1) * R div W)"
proof -
  let ?P = "ROWS_PER_MPI_PROCESS cfg"
  have W: "0 < W" by (rule assms(1))
  have R: "R = W * ?P" using assms(2,3) by simp
  have ps: "proper_start cfg ps"
    using assms(1,4-7) R by (simp add: proper_start_def)
  have d: "w * R div W = w * ?P" for w
    using W by (simp add: R mult.left_commute [of w W])
  have i: "i < length ps" using assms(4,8) by simp
  have wf: "length (temperatures_last (data_acquisition cfg ps ! i)) = ?P + 2"
    "length (temperatures (data_acquisition cfg ps ! i)) = ?P + 2"
    using well_formed_acquired [OF ps i] by (simp_all add: well_formed_def)
  have rows: "read_rows (temperatures_last (data_acquisition cfg ps ! i)) 1 ?P =
              map (\<lambda>g. all_temperatures (ps ! 0) ! g) [i * R div W ..< (i + 1) * R div W]"
  proof (rule nth_equalityI)
    show "length (read_rows (temperatures_last (data_acquisition cfg ps ! i)) 1 ?P) =
          length (map (\<lambda>g. all_temperatures (ps ! 0) ! g) [i * R div W ..< (i + 1) * R div W])"
      unfolding d by (simp add: length_read_rows wf)
  next
    fix k assume "k < length (read_rows (temperatures_last (data_acquisition cfg ps ! i)) 1 ?P)"
    then have k: "k < ?P" by (simp add: length_read_rows)
    then show "read_rows (temperatures_last (data_acquisition cfg ps ! i)) 1 ?P ! k =
               map (\<lambda>g. all_temperatures (ps ! 0) ! g) [i * R div W ..< (i + 1) * R div W] ! k"
      unfolding d using acquired_row(1) [OF ps i k] by (simp add: nth_read_rows wf)
  qed
  have rows': "read_rows (temperatures (data_acquisition cfg ps ! i)) 1 ?P =
              map (\<lambda>g. all_temperatures (ps ! 0) ! g) [i * R div W ..< (i + 1) * R div W]"
  proof (rule nth_equalityI)
    show "length (read_rows (temperatures (data_acquisition cfg ps ! i)) 1 ?P) =
          length (map (\<lambda>g. all_temperatures (ps ! 0) ! g) [i * R div W ..< (i + 1) * R div W])"
      unfolding d by (simp add: length_read_rows wf)
  next
    fix k assume "k < length (read_rows (temperatures (data_acquisition cfg ps ! i)) 1 ?P)"
    then have k: "k < ?P" by (simp add: length_read_rows)
    then show "read_rows (temperatures (data_acquisition cfg ps ! i)) 1 ?P ! k =
               map (\<lambda>g. all_temperatures (ps ! 0) ! g) [i * R div W ..< (i + 1) * R div W] ! k"
      unfolding d using acquired_row(2) [OF ps i k] by (simp add: nth_read_rows wf)
  qed
  have cover: "\<exists>!w. w < W \<and> w * R div W \<le> g \<and> g < (w + 1) * R div W" if g: "g < R" for g
  proof -
    from g R have P: "0 < ?P" by (cases "?P = 0") simp_all
    show ?thesis
    proof (rule ex1I [of _ "g div ?P"])
      have "g div ?P < W" using g R by (simp add: less_mult_imp_div_less)
      moreover have "g div ?P * ?P \<le> g" by simp
      moreover have "g < (g div ?P + 1) * ?P"
        using P by (metis Suc_eq_plus1 dividend_less_div_times mult.commute mult_Suc)
      ultimately show "g div ?P < W \<and> g div ?P * R div W \<le> g \<and> g < (g div ?P + 1) * R div W"
        unfolding d by simp
    next
      fix w assume "w < W \<and> w * R div W \<le> g \<and> g < (w + 1) * R div W"
      then have "w * ?P \<le> g" "g < (w + 1) * ?P" unfolding d by simp_all
      then show "w = g div ?P"
        using P by (metis add.commute div_nat_eqI mult.commute plus_1_eq_Suc mult_Suc)
    qed
  qed
  from rows rows' cover show ?thesis
    by (simp add: up_neighbour_rank_def down_neighbour_rank_def)
qed

theorem partition_correct_witness:
  "read_rows (temperatures_last (data_acquisition cfg1 ranks1 ! 1)) 1 1 = [[50, 4]] \<and>
   read_rows (temperatures (data_acquisition cfg1 ranks1 ! 1)) 1 1 = [[50, 4]] \<and>
   up_neighbour_rank 1 = Some 0 \<and> down_neighbour_rank 2 1 = None"
  using partition_correct [of 2 2 cfg1 ranks1 1]
  by (simp add: cfg1_def ranks1_def stack1_def well_formed_def upt_conv_Cons)

text \<open>
  C4, as stated, fails. With one rank (which has neither an upper nor a lower neighbour)
  the update of owned row 1 reads ghost row 0 and the update of the last owned row reads
  the ghost row below it: the results are the four-point averages that include the ghost
  row, not the averages of the three neighbours that exist, and they change with the
  contents of the ghost rows (0 or 9 in the example).
\<close>

theorem top_and_bottom_rows_counterexample:
  "up_neighbour_rank 0 = None \<and> down_neighbour_rank 1 0 = None \<and>
   temperatures (processes (iteration cfg0 (start_run cfg0 [stack0 0] [])) ! 0) ! 1 ! 1 =
     0.25 * (0 + 8 + 4 + 6) \<and>
   temperatures (processes (iteration cfg0 (start_run cfg0 [stack0 0] [])) ! 0) ! 1 ! 1 \<noteq>
     (8 + 4 + 6) / 3 \<and>
   temperatures (processes (iteration cfg0 (start_run cfg0 [stack0 9] [])) ! 0) ! 1 ! 1 =
     0.25 * (9 + 8 + 4 + 6) \<and>
   temperatures (processes (iteration cfg0 (start_run cfg0 [stack0 9] [])) ! 0) ! 2 ! 1 =
     0.25 * (5 + 9 + 7 + 50) \<and>
   temperatures (processes (iteration cfg0 (start_run cfg0 [stack0 9] [])) ! 0) ! 2 ! 1 \<noteq>
     (5 + 7 + 50) / 3"
  by (simp add: run_defs cfg0_def stack0_def)

text \<open>
  C4, amended. On every rank, and so also on the rank without upper neighbour and on the
  rank without lower neighbour, one pass through the loop sets every owned cell that does
  not hold \<^verbatim>\<open>MAX_TEMPERATURE\<close> to the same stencil value as in C1, computed from
  \<^verbatim>\<open>temperatures_last\<close> after the exchange: rows 1 and \<open>ROWS_PER_MPI_PROCESS\<close> are not
  special. On a rank without upper neighbour, row 0 of \<^verbatim>\<open>temperatures_last\<close> is written
  neither by the exchange nor by any later pass, so the update keeps reading what that
  row held before the loop; likewise row \<open>ROWS_PER_MPI_PROCESS + 1\<close> on a rank without
  lower neighbour.
\<close>

theorem top_and_bottom_rows_use_ghost_rows:
  assumes "r < length (processes s)"
    and "well_formed cfg (temperatures (processes s ! r))"
    and "2 \<le> COLUMNS_PER_MPI_PROCESS cfg"
    and "1 \<le> i" and "i \<le> ROWS_PER_MPI_PROCESS cfg"
    and "j < COLUMNS_PER_MPI_PROCESS cfg"
    and "temperatures (processes s ! r) ! i ! j \<noteq> MAX_TEMPERATURE cfg"
  shows "temperatures (processes (iteration cfg s) ! r) ! i ! j =
           stencil_value cfg (temperatures_last (exchanged cfg (processes s) r)) i j \<and>
         (up_neighbour_rank r = None \<longrightarrow>
            temperatures_last (exchanged cfg (processes s) r) ! 0 =
              temperatures_last (processes s ! r) ! 0 \<and>
            (\<forall>n. temperatures_last (processes (iterations cfg n s) ! r) ! 0 =
                   temperatures_last (processes s ! r) ! 0)) \<and>
         (down_neighbour_rank (length (processes s)) r = None \<longrightarrow>
            temperatures_last (exchanged cfg (processes s) r) ! (ROWS_PER_MPI_PROCESS cfg + 1) =
              temperatures_last (processes s ! r) ! (ROWS_PER_MPI_PROCESS cfg + 1) \<and>
            (\<forall>n. temperatures_last (processes (iterations cfg n s) ! r)
                     ! (ROWS_PER_MPI_PROCESS cfg + 1) =
                   temperatures_last (processes s ! r) ! (ROWS_PER_MPI_PROCESS cfg + 1)))"
  using assms iteration_cell [OF assms(1-6)]
  by (simp add: exchanged_ghost_rows iterations_ghost_rows)

theorem top_and_bottom_rows_use_ghost_rows_witness:
  "temperatures (processes (iteration cfg0 (start_run cfg0 [stack0 9] [])) ! 0) ! 1 ! 1 = 27 / 4 \<and>
   temperatures_last (processes (iterations cfg0 2 (start_run cfg0 [stack0 9] [])) ! 0) ! 0 =
     [9, 9, 9] \<and>
   temperatures_last (processes (iterations cfg0 2 (start_run cfg0 [stack0 9] [])) ! 0) ! 3 =
     [9, 9, 9]"
proof -
  let ?s = "start_run cfg0 [stack0 9] []"
  have s: "processes ?s =
      [\<lparr>temperatures = [[0, 0, 0], [4, 5, 6], [7, 8, 50], [0, 0, 0]],
        temperatures_last = [[9, 9, 9], [4, 5, 6], [7, 8, 50], [9, 9, 9]],
        all_temperatures = [[4, 5, 6], [7, 8, 50]], my_temperature_change = 0\<rparr>]"
    by (simp add: run_defs cfg0_def stack0_def)
  have h: "0 < length (processes ?s)"
    "well_formed cfg0 (temperatures (processes ?s ! 0))"
    "2 \<le> COLUMNS_PER_MPI_PROCESS cfg0" "(1::nat) \<le> 1" "1 \<le> ROWS_PER_MPI_PROCESS cfg0"
    "1 < COLUMNS_PER_MPI_PROCESS cfg0"
    "temperatures (processes ?s ! 0) ! 1 ! 1 \<noteq> MAX_TEMPERATURE cfg0"
    unfolding s by (simp_all add: well_formed_def cfg0_def)
  from top_and_bottom_rows_use_ghost_rows [OF h]
  show ?thesis
    unfolding s
    by (simp add: stencil_value_def middle_value_def exchanged_def up_neighbour_rank_def
        down_neighbour_rank_def cfg0_def)
qed

text \<open>
  C5, as stated, fails. The arrays are declared without initialiser and nothing writes
  zeros into them: a start state of the declared shape whose cells are 7 and 9 is a
  possible one, and after data acquisition the ghost rows still hold 7 and 9.
\<close>

theorem slabs_not_zeroed_counterexample:
  "proper_start cfg1 [stack1 [[1, 2]]] \<and>
   temperatures (stack1 [[1, 2]]) ! 0 ! 0 \<noteq> 0 \<and>
   temperatures_last (stack1 [[1, 2]]) ! 0 ! 0 \<noteq> 0 \<and>
   temperatures (data_acquisition cfg1 [stack1 [[1, 2]]] ! 0) = [[7, 7], [1, 2], [7, 7]] \<and>
   temperatures_last (data_acquisition cfg1 [stack1 [[1, 2]]] ! 0) = [[9, 9], [1, 2], [9, 9]]"
  by (simp add: run_defs cfg1_def stack1_def)

text \<open>
  C5, amended. The two arrays of every rank have \<open>ROWS_PER_MPI_PROCESS + 2\<close> rows of
  \<open>COLUMNS_PER_MPI_PROCESS\<close> cells and are not initialised. Data acquisition writes the
  rank's block of the input into the owned rows of both arrays and leaves the two ghost
  rows of both arrays as they were at the start.
\<close>

theorem slabs_after_load:
  assumes "proper_start cfg ps" and "r < length ps"
  shows "well_formed cfg (temperatures (data_acquisition cfg ps ! r)) \<and>
         well_formed cfg (temperatures_last (data_acquisition cfg ps ! r)) \<and>
         (\<forall>k < ROWS_PER_MPI_PROCESS cfg.
            temperatures (data_acquisition cfg ps ! r) ! Suc k =
              all_temperatures (ps ! 0) ! (r * ROWS_PER_MPI_PROCESS cfg + k) \<and>
            temperatures_last (data_acquisition cfg ps ! r) ! Suc k =
              all_temperatures (ps ! 0) ! (r * ROWS_PER_MPI_PROCESS cfg + k)) \<and>
         temperatures (data_acquisition cfg ps ! r) ! 0 = temperatures (ps ! r) ! 0 \<and>
         temperatures (data_acquisition cfg ps ! r) ! (ROWS_PER_MPI_PROCESS cfg + 1) =
           temperatures (ps ! r) ! (ROWS_PER_MPI_PROCESS cfg + 1) \<and>
         temperatures_last (data_acquisition cfg ps ! r) ! 0 = temperatures_last (ps ! r) ! 0 \<and>
         temperatures_last (data_acquisition cfg ps ! r) ! (ROWS_PER_MPI_PROCESS cfg + 1) =
           temperatures_last (ps ! r) ! (ROWS_PER_MPI_PROCESS cfg + 1)"
  using well_formed_acquired [OF assms] acquired_row [OF assms]
    acquired_ghost [OF _ assms(2), of 0 cfg]
    acquired_ghost [OF _ assms(2), of "ROWS_PER_MPI_PROCESS cfg + 1" cfg]
  by simp

theorem slabs_after_load_witness:
  "temperatures (data_acquisition cfg1 ranks1 ! 1) ! 1 = [50, 4] \<and>
   temperatures_last (data_acquisition cfg1 ranks1 ! 1) ! 1 = [50, 4] \<and>
   temperatures (data_acquisition cfg1 ranks1 ! 1) ! 0 = [7, 7] \<and>
   temperatures (data_acquisition cfg1 ranks1 ! 1) ! 2 = [7, 7] \<and>
   temperatures_last (data_acquisition cfg1 ranks1 ! 1) ! 0 = [9, 9] \<and>
   temperatures_last (data_acquisition cfg1 ranks1 ! 1) ! 2 = [9, 9]"
  using slabs_after_load [OF proper_start_ranks1, of 1]
  by (simp add: run_defs cfg1_def ranks1_def stack1_def)

text \<open>
  C6. One exchange between the ranks with the arrays \<open>ps\<close> always completes, and with
  the stated result. A run of all four calls of every rank exists; no run has more than
  \<open>2 * W + 2\<close> steps and, as long as some rank has calls left, a further step is possible,
  so every run can be continued to the end and none goes on for ever. At the end rank
  \<open>r\<close> holds: \<^verbatim>\<open>temperatures\<close> as it was; in row 0 of \<^verbatim>\<open>temperatures_last\<close> the row
  \<open>ROWS_PER_MPI_PROCESS\<close> of \<^verbatim>\<open>temperatures\<close> of rank \<open>r - 1\<close>, and in row
  \<open>ROWS_PER_MPI_PROCESS + 1\<close> the row 1 of \<^verbatim>\<open>temperatures\<close> of rank \<open>r + 1\<close>; the owned rows
  of \<^verbatim>\<open>temperatures_last\<close> as they were. On the first rank row 0, and on the last rank row
  \<open>ROWS_PER_MPI_PROCESS + 1\<close>, stays as it was. A send to, or a receive from,
  \<^verbatim>\<open>MPI_PROC_NULL\<close> can always complete at once and changes no array. The result is the
  function \<open>exchange_ghost_cells\<close> used for the passes of the loop.
\<close>

theorem ghost_exchange_result:
  assumes "list_all (\<lambda>p. well_formed cfg (temperatures p) \<and>
                         well_formed cfg (temperatures_last p)) ps"
    and "r < length ps"
  shows "(\<exists>w. (step (ghost_exchange_calls cfg (length ps)) ^^ (2 * length ps + 2)) (start ps) w \<and>
              finished (ghost_exchange_calls cfg (length ps)) w) \<and>
         (\<forall>k w. (step (ghost_exchange_calls cfg (length ps)) ^^ k) (start ps) w \<longrightarrow>
            k \<le> 2 * length ps + 2 \<and>
            (\<not> finished (ghost_exchange_calls cfg (length ps)) w \<longrightarrow>
               (\<exists>w'. step (ghost_exchange_calls cfg (length ps)) w w')) \<and>
            (finished (ghost_exchange_calls cfg (length ps)) w \<longrightarrow>
               snd (w ! r) = exchange_ghost_cells cfg ps ! r \<and>
               temperatures (snd (w ! r)) = temperatures (ps ! r) \<and>
               temperatures_last (snd (w ! r)) ! 0 =
                 (if r = 0 then temperatures_last (ps ! r) ! 0
                  else temperatures (ps ! (r - 1)) ! ROWS_PER_MPI_PROCESS cfg) \<and>
               temperatures_last (snd (w ! r)) ! (ROWS_PER_MPI_PROCESS cfg + 1) =
                 (if r = length ps - 1
                  then temperatures_last (ps ! r) ! (ROWS_PER_MPI_PROCESS cfg + 1)
                  else temperatures (ps ! (r + 1)) ! 1) \<and>
               (\<forall>i. 1 \<le> i \<and> i \<le> ROWS_PER_MPI_PROCESS cfg \<longrightarrow>
                  temperatures_last (snd (w ! r)) ! i = temperatures_last (ps ! r) ! i))) \<and>
         (\<forall>v q buf. next_call (ghost_exchange_calls cfg (length ps)) v q = Some (Ssend None buf) \<longrightarrow>
            step (ghost_exchange_calls cfg (length ps)) v (v[q := (Suc (fst (v ! q)), snd (v ! q))])) \<and>
         (\<forall>v q store. next_call (ghost_exchange_calls cfg (length ps)) v q = Some (Recv None store) \<longrightarrow>
            step (ghost_exchange_calls cfg (length ps)) v (v[q := (Suc (fst (v ! q)), snd (v ! q))]))"
proof -
  let ?P = "ghost_exchange_calls cfg (length ps)"
  let ?N = "2 * length ps + 2"
  have W: "0 < length ps" using assms(2) by (cases ps) simp_all
  have fin: "finished ?P w \<longleftrightarrow> k = ?N" if "(step ?P ^^ k) (start ps) w" for k w
    using exchange_run [OF that] in_wave_finished [of k w cfg] W by simp
  from wave_reachable [OF W, of ?N cfg]
  obtain u where u: "(step ?P ^^ ?N) (start ps) u" by auto
  with fin [OF u] have complete: "\<exists>w. (step ?P ^^ ?N) (start ps) w \<and> finished ?P w"
    by blast
  have bound: "k \<le> ?N" if "(step ?P ^^ k) (start ps) w" for k w
    using exchange_run [OF that] by simp
  have progress: "\<exists>w'. step ?P w w'"
    if run: "(step ?P ^^ k) (start ps) w" and "\<not> finished ?P w" for k w
  proof -
    from exchange_run [OF run] have l: "length w = length ps" and inv: "in_wave k w"
      and "k \<le> ?N" by simp_all
    with fin [OF run] that(2) have "k < 2 * length w + 2" by simp
    from wave_progress [OF inv _ this, of cfg] W l show ?thesis by simp
  qed
  have result: "snd (w ! r) = exchanged cfg ps r"
    if run: "(step ?P ^^ k) (start ps) w" and f: "finished ?P w" for k w
  proof -
    from run have "(step ?P)\<^sup>*\<^sup>* (start ps) w" by (rule relpowp_imp_rtranclp)
    from data_inv_reachable [OF this] have l: "length w = length ps"
      and d: "snd (w ! r) = after_calls cfg ps r (fst (w ! r))"
      using assms(2) by (simp_all add: data_inv_def)
    have "fst (w ! r) = 4"
      using f assms(2) l by (simp add: finished_def ghost_exchange_calls_def)
    with d show ?thesis by (simp add: after_calls_4)
  qed
  have null: "step ?P v (v[q := (Suc (fst (v ! q)), snd (v ! q))])"
    if "next_call ?P v q = Some (Ssend None buf) \<or> next_call ?P v q = Some (Recv None store)"
    for v q buf store
    using that step.send_null [of ?P v q buf] step.recv_null [of ?P v q store]
    by (auto simp: advance_def)
  have rows: "snd (w ! r) = exchange_ghost_cells cfg ps ! r \<and>
               temperatures (snd (w ! r)) = temperatures (ps ! r) \<and>
               temperatures_last (snd (w ! r)) ! 0 =
                 (if r = 0 then temperatures_last (ps ! r) ! 0
                  else temperatures (ps ! (r - 1)) ! ROWS_PER_MPI_PROCESS cfg) \<and>
               temperatures_last (snd (w ! r)) ! (ROWS_PER_MPI_PROCESS cfg + 1) =
                 (if r = length ps - 1
                  then temperatures_last (ps ! r) ! (ROWS_PER_MPI_PROCESS cfg + 1)
                  else temperatures (ps ! (r + 1)) ! 1) \<and>
               (\<forall>i. 1 \<le> i \<and> i \<le> ROWS_PER_MPI_PROCESS cfg \<longrightarrow>
                  temperatures_last (snd (w ! r)) ! i = temperatures_last (ps ! r) ! i)"
    if run: "(step ?P ^^ k) (start ps) w" and f: "finished ?P w" for k w
    unfolding result [OF run f]
    using assms(2)
    by (simp add: nth_exchange_ghost_cells temperatures_exchanged
        exchanged_rows [OF assms(2,1)])
  from complete bound progress rows null show ?thesis
    by blast
qed

theorem ghost_exchange_result_witness:
  "\<exists>w. (step (ghost_exchange_calls cfg1 3) ^^ 8) (start ranks3) w \<and>
        finished (ghost_exchange_calls cfg1 3) w \<and>
        temperatures (snd (w ! 1)) = [[0, 0], [3, 4], [0, 0]] \<and>
        temperatures_last (snd (w ! 1)) = [[1, 2], [3, 4], [5, 6]]"
proof -
  have wf: "list_all (\<lambda>p. well_formed cfg1 (temperatures p) \<and>
                           well_formed cfg1 (temperatures_last p)) ranks3"
    by (simp add: ranks3_def half_def well_formed_def cfg1_def)
  have r: "1 < length ranks3" by (simp add: ranks3_def)
  have l: "length ranks3 = 3" by (simp add: ranks3_def)
  note h = ghost_exchange_result [OF wf r, unfolded l]
  from h obtain w where run: "(step (ghost_exchange_calls cfg1 3) ^^ 8) (start ranks3) w"
    and f: "finished (ghost_exchange_calls cfg1 3) w"
    by auto
  from h run f have "snd (w ! 1) = exchange_ghost_cells cfg1 ranks3 ! 1"
    by blast
  then have "temperatures (snd (w ! 1)) = [[0, 0], [3, 4], [0, 0]] \<and>
             temperatures_last (snd (w ! 1)) = [[1, 2], [3, 4], [5, 6]]"
    by (simp add: run_defs ranks3_def half_def cfg1_def)
  with run f show ?thesis by blast
qed

text \<open>
  C7, as stated, fails in its second half. The exchange is the sequence blocking
  synchronous send, blocking receive, blocking synchronous send, blocking receive
  (shown for the middle one of three ranks), and at the start of an exchange of three
  ranks only rank 0 can complete a call: ranks 1 and 2 are blocked in their first send.
\<close>

theorem blocking_exchange_counterexample:
  "ghost_exchange_calls cfg1 3 1 =
     [Ssend (Some 0) (send_row 1), Recv (Some 2) (recv_row 2),
      Ssend (Some 2) (send_row 1), Recv (Some 0) (recv_row 0)] \<and>
   can_advance (ghost_exchange_calls cfg1 3) (start ranks3) 0 \<and>
   \<not> can_advance (ghost_exchange_calls cfg1 3) (start ranks3) 1 \<and>
   \<not> can_advance (ghost_exchange_calls cfg1 3) (start ranks3) 2"
proof -
  let ?P = "ghost_exchange_calls cfg1 3"
  have l: "length ranks3 = 3" by (simp add: ranks3_def)
  have calls: "ghost_exchange_calls cfg1 3 1 =
     [Ssend (Some 0) (send_row 1), Recv (Some 2) (recv_row 2),
      Ssend (Some 2) (send_row 1), Recv (Some 0) (recv_row 0)]"
    by (simp add: ghost_exchange_calls_def up_neighbour_rank_def down_neighbour_rank_def cfg1_def
        numeral_2_eq_2)
  have "step ?P (start ranks3) ((start ranks3)[0 := advance id (start ranks3 ! 0)])"
    by (rule step.send_null [where buf = "send_row 1"])
      (simp add: call_defs start_def ranks3_def)
  then have a0: "can_advance ?P (start ranks3) 0"
    unfolding can_advance_def
    by (rule_tac x = "(start ranks3)[0 := advance id (start ranks3 ! 0)]" in exI)
      (simp add: start_def ranks3_def advance_def)
  have only: "w' = (start ranks3)[0 := advance id (start ranks3 ! 0)]"
    if "step ?P (start ranks3) w'" for w'
    using step_from_start [of cfg1 ranks3 w'] that by (simp add: l)
  have blocked: "\<not> can_advance ?P (start ranks3) r" if "r = 1 \<or> r = 2" for r
  proof
    assume "can_advance ?P (start ranks3) r"
    then obtain w' where "step ?P (start ranks3) w'"
      and "fst (w' ! r) = Suc (fst (start ranks3 ! r))"
      unfolding can_advance_def by blast
    with only [of w'] that show False
      by (auto simp: start_def ranks3_def)
  qed
  from calls a0 blocked [of 1] blocked [of 2] show ?thesis by simp
qed

text \<open>
  C7, amended. For every number of ranks the exchange, written as blocking synchronous
  sends followed by blocking receives, completes without deadlock: a run of the exchange
  of \<open>W\<close> ranks has at most \<open>2 * W + 2\<close> steps, every run with fewer steps can take a
  further step, a run has completed all calls of all ranks exactly when it has
  \<open>2 * W + 2\<close> steps, and such a run exists.
\<close>

theorem ghost_exchange_completes:
  assumes "0 < length ps"
    and "(step (ghost_exchange_calls cfg (length ps)) ^^ k) (start ps) w"
  shows "k \<le> 2 * length ps + 2 \<and>
         (k < 2 * length ps + 2 \<longrightarrow> (\<exists>w'. step (ghost_exchange_calls cfg (length ps)) w w')) \<and>
         (finished (ghost_exchange_calls cfg (length ps)) w \<longleftrightarrow> k = 2 * length ps + 2) \<and>
         (\<exists>v. (step (ghost_exchange_calls cfg (length ps)) ^^ (2 * length ps + 2)) (start ps) v)"
proof -
  from exchange_run [OF assms(2)] have l: "length w = length ps"
    and k: "k \<le> 2 * length ps + 2" and inv: "in_wave k w"
    by simp_all
  have "\<exists>w'. step (ghost_exchange_calls cfg (length ps)) w w'" if "k < 2 * length ps + 2"
    using wave_progress [OF inv, of cfg] assms(1) that l by simp
  moreover have "finished (ghost_exchange_calls cfg (length ps)) w \<longleftrightarrow> k = 2 * length ps + 2"
    using in_wave_finished [OF inv, of cfg] assms(1) k l by simp
  ultimately show ?thesis
    using k wave_reachable [OF assms(1), of "2 * length ps + 2" cfg] by simp
qed

theorem ghost_exchange_completes_witness:
  "finished (ghost_exchange_calls cfg1 (length ranks2)) (exchange2 6) \<and>
   (\<exists>v. (step (ghost_exchange_calls cfg1 (length ranks2)) ^^ 6) (start ranks2) v)"
proof -
  have "0 < length ranks2" by (simp add: ranks2_def)
  from ghost_exchange_completes [OF this exchange2_run]
  show ?thesis by (simp add: ranks2_def)
qed




text \<open>
  C9, as stated, fails. The gather of the pass with \<open>iteration_count = 0\<close> comes after
  the stencil update of that pass, so the first snapshot differs from the input (here
  with zeros in the ghost rows).
\<close>

theorem first_snapshot_counterexample:
  "iteration_count (start_run cfg0 [stack0 0] []) = 0 \<and>
   all_temperatures (stack0 0) = [[4, 5, 6], [7, 8, 50]] \<and>
   snapshot (iteration cfg0 (start_run cfg0 [stack0 0] [])) =
     [[4, 9 / 2, 55 / 3], [4, 31 / 2, 50]] \<and>
   snapshot (iteration cfg0 (start_run cfg0 [stack0 0] [])) \<noteq> all_temperatures (stack0 0)"
  by (simp add: run_defs cfg0_def stack0_def)

text \<open>
  C9, amended. The snapshot gathered in the pass with \<open>iteration_count = 0\<close> is taken
  after the first stencil update: row \<open>r * ROWS_PER_MPI_PROCESS + k\<close> of the snapshot is
  owned row \<open>k + 1\<close> of \<^verbatim>\<open>temperatures\<close> of rank \<open>r\<close> after that update, which is the
  result of the three kernels on the data the rank acquired.
\<close>

theorem first_snapshot_holds_updated_rows:
  assumes "proper_start cfg ps" and "r < length ps" and "k < ROWS_PER_MPI_PROCESS cfg"
    and "0 < SNAPSHOT_INTERVAL cfg"
  shows "iteration_count (start_run cfg ps snap) = 0 \<and>
         snapshot (iteration cfg (start_run cfg ps snap)) ! (r * ROWS_PER_MPI_PROCESS cfg + k) =
           temperatures (processes (iteration cfg (start_run cfg ps snap)) ! r) ! Suc k \<and>
         temperatures (processes (iteration cfg (start_run cfg ps snap)) ! r) =
           propagate cfg (temperatures_last (exchanged cfg (data_acquisition cfg ps) r))
             (temperatures (data_acquisition cfg ps ! r))"
proof -
  let ?s = "start_run cfg ps snap"
  have ps: "processes ?s = data_acquisition cfg ps" and c: "iteration_count ?s = 0"
    by (simp_all add: start_run_def)
  have len: "length (processes ?s) = length ps"
    by (simp add: ps length_data_acquisition)
  have snap: "snapshot (iteration cfg ?s) = gather cfg (processes (iteration cfg ?s))"
    by (simp add: iteration_def Let_def c)
  have "length (temperatures p) = ROWS_PER_MPI_PROCESS cfg + 2"
    if "p \<in> set (processes (iteration cfg ?s))" for p
  proof -
    from that obtain q where q: "q < length ps" "p = processes (iteration cfg ?s) ! q"
      by (auto simp: in_set_conv_nth length_iteration len)
    have "length (temperatures p) = length (temperatures (data_acquisition cfg ps ! q))"
      using length_temperatures_iteration [of q ?s cfg] q
      by (simp add: ps length_data_acquisition)
    with well_formed_acquired(2) [OF assms(1) q(1)] show ?thesis
      by (simp add: well_formed_def)
  qed
  then have "gather cfg (processes (iteration cfg ?s)) ! (r * ROWS_PER_MPI_PROCESS cfg + k) =
             temperatures (processes (iteration cfg ?s) ! r) ! Suc k"
    using assms(2,3) by (intro gather_row) (simp_all add: length_iteration len)
  moreover have "temperatures (processes (iteration cfg ?s) ! r) =
           propagate cfg (temperatures_last (exchanged cfg (data_acquisition cfg ps) r))
             (temperatures (data_acquisition cfg ps ! r))"
    using temperatures_iteration [of r ?s cfg] assms(2)
    by (simp add: ps length_data_acquisition)
  ultimately show ?thesis
    using c snap by simp
qed

theorem first_snapshot_holds_updated_rows_witness:
  "snapshot (iteration cfg1 (start_run cfg1 ranks1 [])) ! 1 = [50, 61 / 3] \<and>
   temperatures (processes (iteration cfg1 (start_run cfg1 ranks1 [])) ! 1) ! 1 = [50, 61 / 3]"
  using first_snapshot_holds_updated_rows [OF proper_start_ranks1, of 1 0 "[]"]
  by (simp add: run_defs cfg1_def ranks1_def stack1_def)

text \<open>
  C10. The kernels decide by the value alone whether they store into an owned cell:
  the cell keeps its value when that value is \<^verbatim>\<open>MAX_TEMPERATURE\<close> and gets the stencil
  value otherwise. Hence a cell of \<^verbatim>\<open>temperatures\<close> that holds \<^verbatim>\<open>MAX_TEMPERATURE\<close> in any
  state of the run, whether the input marked it or not, holds it after any number of
  further passes.
\<close>

theorem max_valued_cells_are_skipped:
  assumes "well_formed cfg t"
    and "2 \<le> COLUMNS_PER_MPI_PROCESS cfg"
    and "1 \<le> i" and "i \<le> ROWS_PER_MPI_PROCESS cfg"
    and "j < COLUMNS_PER_MPI_PROCESS cfg"
  shows "propagate cfg prev t ! i ! j =
           (if t ! i ! j = MAX_TEMPERATURE cfg then t ! i ! j else stencil_value cfg prev i j) \<and>
         (\<forall>n r. r < length (processes s) \<and>
               temperatures (processes s ! r) ! i ! j = MAX_TEMPERATURE cfg \<longrightarrow>
               temperatures (processes (iterations cfg n s) ! r) ! i ! j = MAX_TEMPERATURE cfg)"
  using assms
  by (simp add: propagate_cell stencil_value_def iterations_keeps_max)

theorem max_valued_cells_are_skipped_witness:
  "propagate cfg0 grid0 grid0 ! 2 ! 2 = 50 \<and>
   temperatures (processes (iterations cfg0 3 run0) ! 0) ! 2 ! 2 = 50"
proof -
  note h = max_valued_cells_are_skipped [OF well_formed_grid0, of 2 2 grid0 run0]
  have c: "2 \<le> COLUMNS_PER_MPI_PROCESS cfg0" "(1::nat) \<le> 2" "2 \<le> ROWS_PER_MPI_PROCESS cfg0"
    "2 < COLUMNS_PER_MPI_PROCESS cfg0"
    by (simp_all add: cfg0_def)
  from h [OF c] have a: "propagate cfg0 grid0 grid0 ! 2 ! 2 = 50"
    by (simp add: cfg0_def grid0_def)
  from h [OF c] have "0 < length (processes run0) \<and>
       temperatures (processes run0 ! 0) ! 2 ! 2 = MAX_TEMPERATURE cfg0 \<longrightarrow>
       temperatures (processes (iterations cfg0 3 run0) ! 0) ! 2 ! 2 = MAX_TEMPERATURE cfg0"
    by blast
  then have "temperatures (processes (iterations cfg0 3 run0) ! 0) ! 2 ! 2 = 50"
    by (simp add: run0_def cfg0_def grid0_def)
  with a show ?thesis by simp
qed

end
